theory Spec2Isabelle
  imports Complex_Main "HOL-Library.Sublist" "HOL-Library.Log_Nat"
begin

section \<open>Python string primitives\<close>

text \<open>
  The module \<open>jsx_vector_manager.py\<close> works on Python \<open>str\<close> values with the built-ins
  \<open>lower\<close>, \<open>in\<close>, \<open>count\<close>, \<open>replace\<close>, \<open>strip\<close> and slicing. A text is modelled as a
  \<open>string\<close>, the UTF-8 bytes of the Python text. Every pattern the module looks for is
  ASCII, and an ASCII byte occurs in UTF-8 only as the ASCII character itself, so substring
  tests and occurrence counts agree with the ones on code points.

  \<open>lower_char\<close> folds the letters A to Z and leaves every other byte alone. Python's
  \<open>str.lower\<close> maps only two non-ASCII code points to something containing an ASCII letter:
  U+212A to \<open>k\<close>, and U+0130 to \<open>i\<close> followed by U+0307. None of the keywords searched in a
  lowered text contains \<open>k\<close>, and in each of them \<open>i\<close> is followed by another letter, so the
  keyword tests below agree with Python's on every text.
\<close>

definition lower_char :: "char \<Rightarrow> char" where
  "lower_char c =
     (case map_of (zip ''ABCDEFGHIJKLMNOPQRSTUVWXYZ'' ''abcdefghijklmnopqrstuvwxyz'') c of
        Some d \<Rightarrow> d
      | None \<Rightarrow> c)"

definition py_lower :: "string \<Rightarrow> string" where
  "py_lower s = map lower_char s"

text \<open>\<open>sub in s\<close>: \<open>sub\<close> starts at some position of \<open>s\<close>.\<close>

fun py_in :: "string \<Rightarrow> string \<Rightarrow> bool" where
  "py_in sub [] = (sub = [])"
| "py_in sub (c # cs) = (prefix sub (c # cs) \<or> py_in sub cs)"

text \<open>
  \<open>s.count(sub)\<close>: the number of non-overlapping occurrences, found from left to right;
  after an occurrence the scan resumes behind it. For the empty pattern Python returns
  \<open>len(s) + 1\<close>.
\<close>

fun py_count :: "string \<Rightarrow> string \<Rightarrow> nat" where
  "py_count sub [] = (if sub = [] then 1 else 0)"
| "py_count sub (c # cs) =
     (if sub = [] then Suc (py_count sub cs)
      else if prefix sub (c # cs) then Suc (py_count sub (drop (length sub) (c # cs)))
      else py_count sub cs)"

section \<open>Classifier\<close>

text \<open>
  \<open>_classify_component_category\<close>: the name keywords are tried in the order of the
  \<open>if\<close>/\<open>elif\<close> chain; the last branch counts tags in the source text.
\<close>

definition classify_component_category :: "string \<Rightarrow> string \<Rightarrow> string" where
  "classify_component_category component_name jsx_code =
     (let name_lower = py_lower component_name in
      if py_in ''image'' name_lower then ''image_focused''
      else if py_in ''text'' name_lower then ''text_focused''
      else if py_in ''mixed'' name_lower then ''mixed''
      else if py_in ''card'' name_lower then ''card_based''
      else if py_in ''list'' name_lower then ''list_based''
      else if py_in ''dashboard'' name_lower then ''dashboard''
      else
        (let img_count = py_count ''<img'' jsx_code;
             text_elements =
               py_count ''<h1'' jsx_code + py_count ''<h2'' jsx_code + py_count ''<p'' jsx_code
         in if img_count > text_elements then ''image_focused''
            else if text_elements > img_count * 2 then ''text_focused''
            else ''mixed''))"

text \<open>
  The keyword table as the specification words it: keyword and category, in the fixed
  order image, text, mixed, card, list, dashboard. It is compared with the chain above.
\<close>

definition category_keywords :: "(string \<times> string) list" where
  "category_keywords =
     [(''image'', ''image_focused''), (''text'', ''text_focused''), (''mixed'', ''mixed''),
      (''card'', ''card_based''), (''list'', ''list_based''), (''dashboard'', ''dashboard'')]"

definition first_keyword :: "string \<Rightarrow> (string \<times> string) option" where
  "first_keyword component_name =
     find (\<lambda>kv. py_in (fst kv) (py_lower component_name)) category_keywords"

section \<open>Image patterns\<close>

record image_patterns =
  count :: nat
  arrangement :: string
  sizing :: string

text \<open>\<open>_analyze_image_patterns\<close>. The quote in \<open>width: '100%'\<close> is the byte 0x27.\<close>

definition analyze_image_patterns :: "string \<Rightarrow> image_patterns" where
  "analyze_image_patterns jsx_code =
     (let img_count = py_count ''<img'' jsx_code;
          arr =
            (if py_in ''grid'' (py_lower jsx_code) then ''grid''
             else if py_in ''flex'' (py_lower jsx_code) \<and> img_count > 1 then ''flex''
             else if img_count = 1 then ''single''
             else if img_count > 3 then ''gallery''
             else ''multiple'');
          sz =
            (if py_in (''width: '' @ [CHR 0x27] @ ''100%'' @ [CHR 0x27]) jsx_code
             then ''responsive''
             else if py_in ''aspect-'' jsx_code then ''aspect_ratio''
             else ''fixed'')
      in \<lparr> count = img_count, arrangement = arr, sizing = sz \<rparr>)"

section \<open>Text patterns\<close>

text \<open>
  \<open>re.findall\<close> scans from left to right: at a position where the pattern matches, it
  records the match and resumes behind it; elsewhere it moves one character on. A pattern
  is given by what it does at one position: the recorded text and the length of the whole
  match (at least one for every pattern used here). The second argument counts the
  characters still covered by the previous match.
\<close>

type_synonym matcher = "string \<Rightarrow> (string \<times> nat) option"

fun re_findall_from :: "matcher \<Rightarrow> nat \<Rightarrow> string \<Rightarrow> string list" where
  "re_findall_from m skip [] = []"
| "re_findall_from m skip (c # cs) =
     (if 0 < skip then re_findall_from m (skip - 1) cs
      else case m (c # cs) of
             Some (tok, n) \<Rightarrow> tok # re_findall_from m (n - 1) cs
           | None \<Rightarrow> re_findall_from m 0 cs)"

definition re_findall :: "matcher \<Rightarrow> string \<Rightarrow> string list" where
  "re_findall m s = re_findall_from m 0 s"

definition is_quote :: "char \<Rightarrow> bool" where
  "is_quote c = (c = CHR 0x27 \<or> c = CHR 0x22)"

text \<open>
  The patterns \<open>label['"]([^'"]+)['"]\<close>: the label, a quote, the longest non-empty run
  without a quote, and a quote, which has to be there; the run is recorded. A shorter run
  is followed by a character that is no quote, so backtracking finds nothing more.
\<close>

definition quoted_value :: "string \<Rightarrow> matcher" where
  "quoted_value label s =
     (if prefix label s then
        (case drop (length label) s of
           [] \<Rightarrow> None
         | q # r \<Rightarrow>
             (let tok = takeWhile (\<lambda>c. \<not> is_quote c) r
              in if is_quote q \<and> tok \<noteq> [] \<and> dropWhile (\<lambda>c. \<not> is_quote c) r \<noteq> []
                 then Some (tok, length label + length tok + 2)
                 else None))
      else None)"

record text_patterns =
  hierarchy :: "string list"
  typography :: "string set"
  alignment :: string

text \<open>
  \<open>_analyze_text_patterns\<close>. \<open>list(set(matches))\<close> keeps one copy of each match in an order
  the program does not fix; it is modelled as the set.
\<close>

definition analyze_text_patterns :: "string \<Rightarrow> text_patterns" where
  "analyze_text_patterns jsx_code =
     \<lparr> hierarchy =
         (if py_in ''<h1'' jsx_code then [''h1''] else []) @
         (if py_in ''<h2'' jsx_code then [''h2''] else []) @
         (if py_in ''<h3'' jsx_code then [''h3''] else []) @
         (if py_in ''<p'' jsx_code then [''p''] else []),
       typography = set (re_findall (quoted_value ''fontSize: '') jsx_code),
       alignment =
         (if py_in (''textAlign: 'center'' @ [CHR 0x27]) jsx_code then ''center''
          else if py_in (''textAlign: 'right'' @ [CHR 0x27]) jsx_code then ''right''
          else ''left'') \<rparr>"

text \<open>
  The reading of the specification in which the hierarchy lists the tags in the order of
  their first occurrence in the text: the text is scanned from left to right, and a tag
  whose marker starts at the current position is appended unless it is already listed.
\<close>

definition tag_markers :: "(string \<times> string) list" where
  "tag_markers = [(''<h1'', ''h1''), (''<h2'', ''h2''), (''<h3'', ''h3''), (''<p'', ''p'')]"

fun first_occurrence_order :: "string list \<Rightarrow> string \<Rightarrow> string list" where
  "first_occurrence_order seen [] = seen"
| "first_occurrence_order seen (c # cs) =
     (case find (\<lambda>mt. prefix (fst mt) (c # cs)) tag_markers of
        Some mt \<Rightarrow>
          first_occurrence_order (if snd mt \<in> set seen then seen else seen @ [snd mt]) cs
      | None \<Rightarrow> first_occurrence_order seen cs)"

section \<open>Layout, styling, structure and code patterns\<close>






record jsx_structure =
  component_type :: string
  hooks_used :: "string list"
  props_pattern :: string
  children_structure :: string

definition analyze_jsx_structure :: "string \<Rightarrow> jsx_structure" where
  "analyze_jsx_structure jsx_code =
     \<lparr> component_type = ''functional'',
       hooks_used =
         (if py_in ''useState'' jsx_code then [''useState''] else []) @
         (if py_in ''useEffect'' jsx_code then [''useEffect''] else []) @
         (if py_in ''memo'' jsx_code then [''memo''] else []),
       props_pattern = ''simple'',
       children_structure =
         (if py_count ''<div'' jsx_code > 3 then ''nested''
          else if py_in ''?'' jsx_code \<and> py_in '':'' jsx_code then ''conditional''
          else ''single'') \<rparr>"




section \<open>Floating-point numbers\<close>

text \<open>
  Python's \<open>float\<close> is the IEEE 754 double: 53 significant bits, every operation rounded to
  the nearest double, ties to the even significand. A double is modelled as the rational
  number it denotes, and an operation as the exact operation followed by \<open>round_double\<close>.
  The exponent is not bounded: the scores below are at least 0.2 when they are not zero,
  and stay far below the largest double for any text that fits in memory, so neither a
  subnormal number nor an overflow occurs.
\<close>

definition pow2 :: "int \<Rightarrow> rat" where
  "pow2 k = (if 0 \<le> k then 2 ^ nat k else 1 / 2 ^ nat (- k))"

text \<open>For \<open>0 < x\<close>, the exponent \<open>e\<close> with \<open>2 ^ e \<le> x < 2 ^ (e + 1)\<close>.\<close>

definition floor_log2 :: "rat \<Rightarrow> int" where
  "floor_log2 x =
     (if 1 \<le> x then int (floorlog 2 (nat \<lfloor>x\<rfloor>)) - 1
      else - int (floorlog 2 (nat (\<lceil>1 / x\<rceil> - 1))))"

definition round_half_even :: "rat \<Rightarrow> int" where
  "round_half_even r =
     (let f = \<lfloor>r\<rfloor>; d = r - of_int f
      in if d < 1 / 2 then f else if 1 / 2 < d then f + 1 else if even f then f else f + 1)"

definition round_double :: "rat \<Rightarrow> rat" where
  "round_double x =
     (if x = 0 then 0
      else let a = \<bar>x\<bar>; u = pow2 (floor_log2 a - 52)
           in sgn x * of_int (round_half_even (a / u)) * u)"

definition fmul :: "rat \<Rightarrow> rat \<Rightarrow> rat" where
  "fmul x y = round_double (x * y)"

definition fadd :: "rat \<Rightarrow> rat \<Rightarrow> rat" where
  "fadd x y = round_double (x + y)"

text \<open>\<open>int * float\<close> converts the integer to a double first.\<close>

definition float_of_nat :: "nat \<Rightarrow> rat" where
  "float_of_nat n = round_double (of_nat n)"

text \<open>
  What \<open>k\<close> roundings can do to a value that is not negative: each rounding changes it by
  at most one part in \<open>2 ^ 53\<close>.
\<close>

definition roundings :: "nat \<Rightarrow> rat \<Rightarrow> rat \<Rightarrow> bool" where
  "roundings k x y \<longleftrightarrow> x * (1 - 1 / 2 ^ 53) ^ k \<le> y \<and> y \<le> x * (1 + 1 / 2 ^ 53) ^ k"

section \<open>Metadata\<close>

text \<open>
  The complexity score of \<open>_generate_component_metadata\<close>, as a function of the four
  occurrence counts; the literals \<open>0.5\<close>, \<open>1.0\<close>, \<open>0.3\<close>, \<open>0.2\<close> are the doubles nearest to
  them, and the sum is taken from left to right.
\<close>

definition score_of_counts :: "nat \<Rightarrow> nat \<Rightarrow> nat \<Rightarrow> nat \<Rightarrow> rat" where
  "score_of_counts divs imgs styles classes =
     fadd
       (fadd
          (fadd (fmul (float_of_nat divs) (round_double (5 / 10)))
                (fmul (float_of_nat imgs) (round_double 1)))
          (fmul (float_of_nat styles) (round_double (3 / 10))))
       (fmul (float_of_nat classes) (round_double (2 / 10)))"

text \<open>The formula of the specification read in exact arithmetic.\<close>

definition exact_score :: "nat \<Rightarrow> nat \<Rightarrow> nat \<Rightarrow> nat \<Rightarrow> rat" where
  "exact_score divs imgs styles classes =
     5 / 10 * of_nat divs + 1 * of_nat imgs + 3 / 10 * of_nat styles + 2 / 10 * of_nat classes"

definition complexity_score :: "string \<Rightarrow> rat" where
  "complexity_score jsx_code =
     score_of_counts (py_count ''<div'' jsx_code) (py_count ''<img'' jsx_code)
       (py_count ''style='' jsx_code) (py_count ''className='' jsx_code)"

record component_metadata =
  complexity :: string
  reusability :: rat
  mobile_optimized :: bool

definition generate_component_metadata :: "string \<Rightarrow> string \<Rightarrow> component_metadata" where
  "generate_component_metadata jsx_code category =
     \<lparr> complexity =
         (if complexity_score jsx_code < 5 then ''simple''
          else if complexity_score jsx_code < 15 then ''moderate''
          else ''complex''),
       reusability =
         (if category \<in> set [''image_focused'', ''text_focused'']
          then round_double (8 / 10) else round_double (6 / 10)),
       mobile_optimized =
         (py_in ''responsive'' (py_lower jsx_code) \<or> py_in ''mobile'' (py_lower jsx_code)) \<rparr>"

section \<open>Search keywords and embedding text\<close>

text \<open>\<open>str\<close> of an integer, and \<open>sep.join\<close>.\<close>

fun str_nat :: "nat \<Rightarrow> string" where
  "str_nat n =
     (if n < 10 then [''0123456789'' ! n]
      else str_nat (n div 10) @ [''0123456789'' ! (n mod 10)])"

definition str_int :: "int \<Rightarrow> string" where
  "str_int i = (if i < 0 then ''-'' @ str_nat (nat (- i)) else str_nat (nat i))"

fun py_join :: "string \<Rightarrow> string list \<Rightarrow> string" where
  "py_join sep [] = []"
| "py_join sep [x] = x"
| "py_join sep (x # y # ys) = x @ sep @ py_join sep (y # ys)"





section \<open>Document key\<close>

text \<open>
  \<open>re.sub\<close> scans like \<open>re.findall\<close> and writes the replacement for each match; a pattern is
  given by the length of its match at a position. The two patterns of
  \<open>_create_safe_jsx_key\<close> are the character class \<open>[^a-zA-Z0-9_\-=]\<close>, one character long,
  and \<open>_+\<close>, the longest run of underscores.
\<close>

fun re_sub_from :: "(string \<Rightarrow> nat option) \<Rightarrow> string \<Rightarrow> nat \<Rightarrow> string \<Rightarrow> string" where
  "re_sub_from m repl skip [] = []"
| "re_sub_from m repl skip (c # cs) =
     (if 0 < skip then re_sub_from m repl (skip - 1) cs
      else case m (c # cs) of
             Some n \<Rightarrow> repl @ re_sub_from m repl (n - 1) cs
           | None \<Rightarrow> c # re_sub_from m repl 0 cs)"

definition re_sub :: "(string \<Rightarrow> nat option) \<Rightarrow> string \<Rightarrow> string \<Rightarrow> string" where
  "re_sub m repl s = re_sub_from m repl 0 s"

definition key_char :: "char \<Rightarrow> bool" where
  "key_char c \<longleftrightarrow>
     c \<in> set ''abcdefghijklmnopqrstuvwxyzABCDEFGHIJKLMNOPQRSTUVWXYZ0123456789_-=''"

definition not_key_char :: "string \<Rightarrow> nat option" where
  "not_key_char s = (case s of [] \<Rightarrow> None | c # _ \<Rightarrow> if key_char c then None else Some 1)"

definition underscores :: "string \<Rightarrow> nat option" where
  "underscores s =
     (let n = length (takeWhile (\<lambda>c. c = CHR ''_'') s) in if 0 < n then Some n else None)"

definition py_strip :: "string \<Rightarrow> string \<Rightarrow> string" where
  "py_strip chars s =
     rev (dropWhile (\<lambda>c. c \<in> set chars) (rev (dropWhile (\<lambda>c. c \<in> set chars) s)))"

text \<open>
  \<open>_create_safe_jsx_key\<close>. A code point outside ASCII is several bytes here and one
  character in Python; each of them becomes an underscore, and the run is collapsed to one
  underscore in either case, so the key is the same.
\<close>

definition create_safe_jsx_key :: "string \<Rightarrow> string" where
  "create_safe_jsx_key component_name =
     (let safe_name = re_sub not_key_char ''_'' component_name;
          safe_name = py_strip ''_'' (re_sub underscores ''_'' safe_name)
      in if length safe_name > 100 then take 100 safe_name else safe_name)"

text \<open>
  The sanitizer as the specification words it: replace each character outside the class,
  collapse repeated underscores, trim underscores at both ends, truncate to 100.
\<close>

fun collapse_underscores :: "string \<Rightarrow> string" where
  "collapse_underscores (a # b # cs) =
     (if a = CHR ''_'' \<and> b = CHR ''_'' then collapse_underscores (b # cs)
      else a # collapse_underscores (b # cs))"
| "collapse_underscores cs = cs"

definition trim_underscores :: "string \<Rightarrow> string" where
  "trim_underscores s =
     rev (dropWhile (\<lambda>c. c = CHR ''_'') (rev (dropWhile (\<lambda>c. c = CHR ''_'') s)))"

definition sanitize_id :: "string \<Rightarrow> string" where
  "sanitize_id s =
     take 100
       (trim_underscores
          (collapse_underscores (map (\<lambda>c. if key_char c then c else CHR ''_'') s)))"

text \<open>
  A name in key form: only characters of the class, no two underscores in a row, no
  underscore at either end, at most 100 characters.
\<close>

fun no_double_underscore :: "string \<Rightarrow> bool" where
  "no_double_underscore (a # b # cs) =
     (\<not> (a = CHR ''_'' \<and> b = CHR ''_'') \<and> no_double_underscore (b # cs))"
| "no_double_underscore cs = True"

definition key_form :: "string \<Rightarrow> bool" where
  "key_form s \<longleftrightarrow>
     list_all key_char s \<and> no_double_underscore s \<and>
     (s = [] \<or> (hd s \<noteq> CHR ''_'' \<and> last s \<noteq> CHR ''_'')) \<and> length s \<le> 100"

section \<open>External services, exceptions and printed lines\<close>

text \<open>
  An exception is a value; a call that can raise returns \<open>error + 'a\<close>. The embedding
  provider, the search index and the file system are outside the module: what they answer
  is given by a record of functions. Each \<open>print\<close> of the module is an event, and a
  function that prints returns the events next to its result.
\<close>

datatype error = Exception string

datatype field_value = StrV string | IntV int | NumV rat

type_synonym search_result = "(string \<times> field_value) list"

record search_params =
  sp_vector :: "rat list"
  sp_k_nearest_neighbors :: int
  sp_fields :: string
  sp_top :: int
  sp_select :: "string list"
  sp_filter :: "string option"

record upload_result =
  succeeded :: bool
  key :: string
  error_message :: string

text \<open>
  The document of \<open>_analyze_jsx_component\<close>. The fields that the source serialises with
  \<open>json.dumps\<close> hold the value that is serialised.
\<close>

record jsx_document =
  doc_id :: string
  doc_component_name :: string
  doc_component_category :: string
  doc_source_type :: string
  doc_jsx_structure :: jsx_structure
  doc_layout_method :: string
  doc_responsive_strategy :: string
  doc_image_count :: nat
  doc_image_arrangement :: string
  doc_image_sizing :: string
  doc_text_hierarchy :: "string list"
  doc_typography_classes :: "string set"
  doc_text_alignment :: string
  doc_color_palette :: "string set"
  doc_spacing_scale :: "string set"
  doc_responsive_classes :: "string list"
  doc_complexity_level :: string
  doc_reusability_score :: rat
  doc_mobile_optimized :: bool
  doc_jsx_code :: string
  doc_import_statements :: "string list"
  doc_export_pattern :: string
  doc_search_keywords :: string
  doc_embedding_text :: string
  doc_jsx_vector :: "rat list"

record services =
  embeddings_create :: "string \<Rightarrow> error + rat list"
  index_search :: "search_params \<Rightarrow> error + search_result list"
  path_exists :: "string \<Rightarrow> bool"
  listdir :: "string \<Rightarrow> error + string list"
  read_file :: "string \<Rightarrow> error + string"
  get_index :: "error + unit"
  create_index :: "error + unit"
  probe_search :: "error + search_result list"
  upload_documents :: "jsx_document list \<Rightarrow> error + upload_result list"
  get_count :: "error + nat option"

datatype event =
    EmbeddingFailed error
  | SearchFailed error
  | FolderNotFound string
  | IndexFound
  | DataConfirmed nat
  | DataMissing
  | DataCheckError error
  | IndexHasData
  | IndexWithoutData
  | IndexAbsent error
  | IndexCreated
  | IndexInitFailed error
  | UsingExistingData
  | ProcessingStart
  | NoJsxFiles string
  | FilesFound nat
  | Processing string
  | DocumentCreated string
  | AnalysisFailed string
  | AnalysisError string error
  | UploadDone nat
  | UploadItemFailed string string
  | AllUploaded
  | UploadFailures nat
  | UploadError error
  | Stored nat
  | FinalCount nat
  | CountError error
  | NothingProcessed

section \<open>Embedding and search\<close>

text \<open>\<open>_create_jsx_embedding\<close>: a failure of the provider is caught here.\<close>

definition create_jsx_embedding :: "services \<Rightarrow> string \<Rightarrow> event list \<times> rat list" where
  "create_jsx_embedding env text_in =
     (case embeddings_create env text_in of
        Inr v \<Rightarrow> ([], v)
      | Inl e \<Rightarrow> ([EmbeddingFailed e], replicate 1536 0))"

text \<open>
  The filter clauses of \<open>search_jsx_components\<close>; \<open>if category:\<close> tests for a non-empty
  string.
\<close>

definition search_filters :: "string option \<Rightarrow> int option \<Rightarrow> string option \<Rightarrow> string list" where
  "search_filters category image_count complexity_in =
     (case category of
        None \<Rightarrow> []
      | Some c \<Rightarrow>
          if c = [] then [] else [''component_category eq '' @ [CHR 0x27] @ c @ [CHR 0x27]]) @
     (case image_count of
        None \<Rightarrow> []
      | Some n \<Rightarrow> [''image_count eq '' @ str_int n]) @
     (case complexity_in of
        None \<Rightarrow> []
      | Some c \<Rightarrow>
          if c = [] then [] else [''complexity_level eq '' @ [CHR 0x27] @ c @ [CHR 0x27]])"

definition make_search_params ::
  "rat list \<Rightarrow> string option \<Rightarrow> int option \<Rightarrow> string option \<Rightarrow> int \<Rightarrow> search_params" where
  "make_search_params query_embedding category image_count complexity_in top_k =
     (let filters = search_filters category image_count complexity_in
      in \<lparr> sp_vector = query_embedding,
           sp_k_nearest_neighbors = top_k * 2,
           sp_fields = ''jsx_vector'',
           sp_top = top_k * 2,
           sp_select =
             [''id'', ''component_name'', ''component_category'', ''jsx_structure'',
              ''layout_method'', ''image_count'', ''image_arrangement'',
              ''complexity_level'', ''jsx_code'', ''search_keywords''],
           sp_filter = (if filters = [] then None else Some (py_join '' and '' filters)) \<rparr>)"

text \<open>
  One entry of the result list: the keys of the entry with the keys of the index hit they
  are read from, in the order of the dictionary display. \<open>result[k]\<close> raises on a missing
  key; \<open>result.get("@search.score", 0.0)\<close> does not.
\<close>

definition component_keys :: "(string \<times> string) list" where
  "component_keys =
     [(''id'', ''id''), (''component_name'', ''component_name''),
      (''category'', ''component_category''), (''layout_method'', ''layout_method''),
      (''image_count'', ''image_count''), (''image_arrangement'', ''image_arrangement''),
      (''complexity'', ''complexity_level''), (''jsx_code'', ''jsx_code''),
      (''keywords'', ''search_keywords'')]"

fun read_keys :: "(string \<times> string) list \<Rightarrow> search_result \<Rightarrow> error + search_result" where
  "read_keys [] r = Inr []"
| "read_keys ((out, k) # ks) r =
     (case map_of r k of
        None \<Rightarrow> Inl (Exception k)
      | Some v \<Rightarrow>
          (case read_keys ks r of
             Inl e \<Rightarrow> Inl e
           | Inr rest \<Rightarrow> Inr ((out, v) # rest)))"

definition component_data :: "search_result \<Rightarrow> error + search_result" where
  "component_data r =
     (case read_keys component_keys r of
        Inl e \<Rightarrow> Inl e
      | Inr d \<Rightarrow>
          Inr (d @ [(''score'',
                     case map_of r ''@search.score'' of Some v \<Rightarrow> v | None \<Rightarrow> NumV 0)]))"

fun collect_components :: "search_result list \<Rightarrow> error + search_result list" where
  "collect_components [] = Inr []"
| "collect_components (r # rs) =
     (case component_data r of
        Inl e \<Rightarrow> Inl e
      | Inr d \<Rightarrow>
          (case collect_components rs of
             Inl e \<Rightarrow> Inl e
           | Inr ds \<Rightarrow> Inr (d # ds)))"

text \<open>The slice \<open>xs[:k]\<close>; a negative \<open>k\<close> counts from the end.\<close>

definition py_slice_to :: "int \<Rightarrow> 'a list \<Rightarrow> 'a list" where
  "py_slice_to k xs = (if 0 \<le> k then take (nat k) xs else take (length xs - nat (- k)) xs)"

text \<open>
  \<open>search_jsx_components\<close>: the body of the \<open>try\<close>, and the \<open>except\<close> clause that prints and
  returns the empty list.
\<close>

definition search_jsx_components ::
  "services \<Rightarrow> string \<Rightarrow> string option \<Rightarrow> int option \<Rightarrow> string option \<Rightarrow> int
     \<Rightarrow> event list \<times> search_result list" where
  "search_jsx_components env query_text category image_count complexity_in top_k =
     (let (evs, query_embedding) = create_jsx_embedding env query_text;
          params = make_search_params query_embedding category image_count complexity_in top_k
      in case index_search env params of
           Inl e \<Rightarrow> (evs @ [SearchFailed e], [])
         | Inr results \<Rightarrow>
             (case collect_components results of
                Inl e \<Rightarrow> (evs @ [SearchFailed e], [])
              | Inr jsx_components \<Rightarrow> (evs, py_slice_to top_k jsx_components)))"

section \<open>Batch ingestion\<close>
















section \<open>A sample environment\<close>

text \<open>
  An environment for the examples: the embedding provider is down, the index answers every
  search with one hit, the index does not exist yet and can be created, and the folder
  \<open>components\<close> holds three component files, of which only \<open>c.jsx\<close> can be read, and a text
  file.
\<close>

definition sample_hit :: search_result where
  "sample_hit =
     [(''id'', StrV ''HeroCard''), (''component_name'', StrV ''HeroCard''),
      (''component_category'', StrV ''mixed''), (''jsx_structure'', StrV ''{}''),
      (''layout_method'', StrV ''block''), (''image_count'', IntV 0),
      (''image_arrangement'', StrV ''multiple''), (''complexity_level'', StrV ''simple''),
      (''jsx_code'', StrV ''<div/>''), (''search_keywords'', StrV ''mixed''),
      (''@search.score'', NumV 1)]"

definition provider_down :: "string \<Rightarrow> error + rat list" where
  "provider_down text_in = Inl (Exception ''embedding service unavailable'')"

definition one_hit :: "search_params \<Rightarrow> error + search_result list" where
  "one_hit params = Inr [sample_hit]"

definition sample_folder :: "string \<Rightarrow> error + string list" where
  "sample_folder folder =
     (if folder = ''components'' then Inr [''a.jsx'', ''b.jsx'', ''notes.txt'', ''c.jsx'']
      else Inl (Exception ''no such folder''))"

definition sample_files :: "string \<Rightarrow> error + string" where
  "sample_files path =
     (if path = ''components/c.jsx'' then Inr ''<p>hello</p>''
      else Inl (Exception ''cannot read''))"

definition all_accepted :: "jsx_document list \<Rightarrow> error + upload_result list" where
  "all_accepted documents =
     Inr (map (\<lambda>d. \<lparr> succeeded = True, key = doc_id d, error_message = [] \<rparr>) documents)"

definition sample_services :: services where
  "sample_services =
     \<lparr> embeddings_create = provider_down,
       index_search = one_hit,
       path_exists = (\<lambda>folder. folder = ''components''),
       listdir = sample_folder,
       read_file = sample_files,
       get_index = Inl (Exception ''index not found''),
       create_index = Inr (),
       probe_search = Inr [],
       upload_documents = all_accepted,
       get_count = Inr (Some 1) \<rparr>"

text \<open>
  A text with one \<open><div\<close>, one \<open><img\<close>, nine \<open>style=\<close> and four \<open>className=\<close>.
\<close>

definition threshold_text :: string where
  "threshold_text =
     ''<div><img>style=style=style=style=style=style=style=style=style='' @
     ''className=className=className=className=''"

section \<open>Facts about the string primitives\<close>

lemma py_in_iff: "py_in sub s \<longleftrightarrow> (\<exists>pre post. s = pre @ sub @ post)"
proof (induction s)
  case Nil
  then show ?case by auto
next
  case (Cons c cs)
  show ?case
  proof
    assume "py_in sub (c # cs)"
    then consider "prefix sub (c # cs)" | "py_in sub cs" by auto
    then show "\<exists>pre post. c # cs = pre @ sub @ post"
    proof cases
      case 1
      then obtain post where "c # cs = sub @ post" by (auto simp: prefix_def)
      then have "c # cs = [] @ sub @ post" by simp
      then show ?thesis by blast
    next
      case 2
      with Cons.IH obtain pre post where "cs = pre @ sub @ post" by blast
      then have "c # cs = (c # pre) @ sub @ post" by simp
      then show ?thesis by blast
    qed
  next
    assume "\<exists>pre post. c # cs = pre @ sub @ post"
    then obtain pre post where eq: "c # cs = pre @ sub @ post" by blast
    show "py_in sub (c # cs)"
    proof (cases pre)
      case Nil
      with eq have "prefix sub (c # cs)" by (simp add: prefix_def)
      then show ?thesis by simp
    next
      case (Cons p ps)
      with eq have "cs = ps @ sub @ post" by simp
      with Cons.IH have "py_in sub cs" by blast
      then show ?thesis by simp
    qed
  qed
qed

lemma py_count_zero_iff: "sub \<noteq> [] \<Longrightarrow> py_count sub s = 0 \<longleftrightarrow> \<not> py_in sub s"
  by (induction sub s rule: py_count.induct) auto

lemma py_lower_append: "py_lower (xs @ ys) = py_lower xs @ py_lower ys"
  by (simp add: py_lower_def)

section \<open>The classifier\<close>

lemma first_keyword_None_iff:
  "first_keyword name = None \<longleftrightarrow>
     \<not> py_in ''image'' (py_lower name) \<and> \<not> py_in ''text'' (py_lower name) \<and>
     \<not> py_in ''mixed'' (py_lower name) \<and> \<not> py_in ''card'' (py_lower name) \<and>
     \<not> py_in ''list'' (py_lower name) \<and> \<not> py_in ''dashboard'' (py_lower name)"
  by (simp add: first_keyword_def category_keywords_def)

text \<open>
  Claim C10. When no name keyword matches, the category is decided by the counts alone:
  with \<open>imgs\<close> the number of \<open><img\<close> and \<open>texts\<close> the number of \<open><h1\<close> plus \<open><h2\<close> plus \<open><p\<close>
  (\<open><h3\<close> is not counted), it is \<open>image_focused\<close> exactly when \<open>imgs > texts\<close>, otherwise
  \<open>text_focused\<close> exactly when \<open>texts > 2 * imgs\<close>, otherwise \<open>mixed\<close>.
\<close>

theorem heuristic_fallback:
  assumes "first_keyword component_name = None"
  shows "(classify_component_category component_name jsx_code = ''image_focused'' \<longleftrightarrow>
            py_count ''<img'' jsx_code >
              py_count ''<h1'' jsx_code + py_count ''<h2'' jsx_code + py_count ''<p'' jsx_code) \<and>
         (classify_component_category component_name jsx_code = ''text_focused'' \<longleftrightarrow>
            \<not> py_count ''<img'' jsx_code >
              py_count ''<h1'' jsx_code + py_count ''<h2'' jsx_code + py_count ''<p'' jsx_code \<and>
            py_count ''<h1'' jsx_code + py_count ''<h2'' jsx_code + py_count ''<p'' jsx_code >
              2 * py_count ''<img'' jsx_code) \<and>
         (classify_component_category component_name jsx_code = ''mixed'' \<longleftrightarrow>
            \<not> py_count ''<img'' jsx_code >
              py_count ''<h1'' jsx_code + py_count ''<h2'' jsx_code + py_count ''<p'' jsx_code \<and>
            \<not> py_count ''<h1'' jsx_code + py_count ''<h2'' jsx_code + py_count ''<p'' jsx_code >
              2 * py_count ''<img'' jsx_code)"
  using assms
  by (simp add: first_keyword_None_iff classify_component_category_def Let_def mult.commute)

text \<open>
  A name without keyword and a text with three \<open><h3\<close> and one \<open><img\<close>: the headings do not
  count, so the image wins.
\<close>

theorem heuristic_fallback_witness:
  "first_keyword ''HeroBanner'' = None \<and>
   classify_component_category ''HeroBanner'' ''<h3>a</h3><h3>b</h3><h3>c</h3><img/>'' = ''image_focused''"
  using heuristic_fallback [of "''HeroBanner''" "''<h3>a</h3><h3>b</h3><h3>c</h3><img/>''"]
  by (simp add: first_keyword_None_iff py_lower_def lower_char_def)

text \<open>
  Claim C5. When the lowered name contains a keyword, the category is the one of the first
  keyword in the order image, text, mixed, card, list, dashboard, whatever the source text
  is; when it contains none and the text has no \<open><img\<close>, \<open><h1\<close>, \<open><h2\<close> or \<open><p\<close>, the category
  is \<open>mixed\<close>.
\<close>

theorem name_keyword_wins:
  "(first_keyword component_name = Some (k, v) \<longrightarrow>
      classify_component_category component_name jsx_code = v \<and>
      classify_component_category component_name other_code = v) \<and>
   (first_keyword component_name = None \<and> \<not> py_in ''<img'' jsx_code \<and>
    \<not> py_in ''<h1'' jsx_code \<and> \<not> py_in ''<h2'' jsx_code \<and> \<not> py_in ''<p'' jsx_code \<longrightarrow>
      classify_component_category component_name jsx_code = ''mixed'')"
proof (intro conjI impI)
  assume "first_keyword component_name = Some (k, v)"
  then show "classify_component_category component_name jsx_code = v"
    and "classify_component_category component_name other_code = v"
    by (auto simp: first_keyword_def category_keywords_def classify_component_category_def
          split: if_splits)
next
  assume a: "first_keyword component_name = None \<and> \<not> py_in ''<img'' jsx_code \<and>
    \<not> py_in ''<h1'' jsx_code \<and> \<not> py_in ''<h2'' jsx_code \<and> \<not> py_in ''<p'' jsx_code"
  then have "py_count ''<img'' jsx_code = 0" "py_count ''<h1'' jsx_code = 0"
    "py_count ''<h2'' jsx_code = 0" "py_count ''<p'' jsx_code = 0"
    by (simp_all add: py_count_zero_iff)
  with a show "classify_component_category component_name jsx_code = ''mixed''"
    by (simp add: first_keyword_None_iff classify_component_category_def)
qed

text \<open>
  A name with three keywords, of which \<open>image\<close> is the first in the order, over a text of
  paragraphs only; and a name without keyword over a text without signals.
\<close>

theorem name_keyword_wins_witness:
  "first_keyword ''TextImageCard'' = Some (''image'', ''image_focused'') \<and>
   classify_component_category ''TextImageCard'' ''<p>a</p><p>b</p><p>c</p>'' = ''image_focused'' \<and>
   first_keyword ''Hero'' = None \<and>
   classify_component_category ''Hero'' ''<div>plain</div>'' = ''mixed''"
proof -
  have k: "first_keyword ''TextImageCard'' = Some (''image'', ''image_focused'')"
    by (simp add: first_keyword_def category_keywords_def py_lower_def lower_char_def)
  have n: "first_keyword ''Hero'' = None"
    by (simp add: first_keyword_None_iff py_lower_def lower_char_def)
  have s: "\<not> py_in ''<img'' ''<div>plain</div>'' \<and> \<not> py_in ''<h1'' ''<div>plain</div>'' \<and>
    \<not> py_in ''<h2'' ''<div>plain</div>'' \<and> \<not> py_in ''<p'' ''<div>plain</div>''"
    by simp
  from name_keyword_wins [of "''TextImageCard''" "''image''" "''image_focused''"
      "''<p>a</p><p>b</p><p>c</p>''" "''''"] k
    name_keyword_wins [of "''Hero''" "''''" "''''" "''<div>plain</div>''" "''''"] n s
  show ?thesis by simp
qed

section \<open>The image arrangement\<close>

lemma py_in_lower_case_variant:
  assumes "jsx_code = pre @ w @ post" and "py_lower w = kw"
  shows "py_in kw (py_lower jsx_code)"
proof -
  from assms have "py_lower jsx_code = py_lower pre @ kw @ py_lower post"
    by (simp add: py_lower_append)
  then show ?thesis
    unfolding py_in_iff by blast
qed

text \<open>
  Claim C4. The arrangement follows the precedence: \<open>grid\<close> anywhere in the lowered text
  gives \<open>grid\<close>; otherwise \<open>flex\<close> in the lowered text together with more than one image gives
  \<open>flex\<close>; otherwise one image gives \<open>single\<close>; otherwise more than three give \<open>gallery\<close>;
  otherwise \<open>multiple\<close>. In particular a text that contains the word in any mix of upper and
  lower case, that is, a piece \<open>w\<close> whose lowering is \<open>grid\<close>, gives \<open>grid\<close>, whatever else it
  contains.
\<close>

theorem arrangement_precedence:
  "(py_in ''grid'' (py_lower jsx_code) \<longrightarrow>
      arrangement (analyze_image_patterns jsx_code) = ''grid'') \<and>
   (\<not> py_in ''grid'' (py_lower jsx_code) \<and> py_in ''flex'' (py_lower jsx_code) \<and>
    py_count ''<img'' jsx_code > 1 \<longrightarrow>
      arrangement (analyze_image_patterns jsx_code) = ''flex'') \<and>
   (\<not> py_in ''grid'' (py_lower jsx_code) \<and>
    \<not> (py_in ''flex'' (py_lower jsx_code) \<and> py_count ''<img'' jsx_code > 1) \<longrightarrow>
      arrangement (analyze_image_patterns jsx_code) =
        (if py_count ''<img'' jsx_code = 1 then ''single''
         else if py_count ''<img'' jsx_code > 3 then ''gallery''
         else ''multiple'')) \<and>
   (jsx_code = pre @ w @ post \<and> py_lower w = ''grid'' \<longrightarrow>
      arrangement (analyze_image_patterns jsx_code) = ''grid'')"
proof (intro conjI impI)
  assume "jsx_code = pre @ w @ post \<and> py_lower w = ''grid''"
  then have "py_in ''grid'' (py_lower jsx_code)"
    using py_in_lower_case_variant by blast
  then show "arrangement (analyze_image_patterns jsx_code) = ''grid''"
    by (simp add: analyze_image_patterns_def)
qed (auto simp: analyze_image_patterns_def Let_def)

text \<open>One text for each branch; the first holds \<open>flex\<close> and \<open>GrId\<close> together.\<close>

theorem arrangement_precedence_witness:
  "arrangement (analyze_image_patterns ''<div class=flex GrId><img/><img/></div>'') = ''grid'' \<and>
   arrangement (analyze_image_patterns ''<div class=Flex><img/><img/></div>'') = ''flex'' \<and>
   arrangement (analyze_image_patterns ''<div class=flex><img/></div>'') = ''single'' \<and>
   arrangement (analyze_image_patterns ''<img/><img/><img/><img/>'') = ''gallery'' \<and>
   arrangement (analyze_image_patterns ''<img/><img/><img/>'') = ''multiple''"
proof (intro conjI)
  show "arrangement (analyze_image_patterns ''<div class=flex GrId><img/><img/></div>'') = ''grid''"
    using arrangement_precedence
      [of "''<div class=flex GrId><img/><img/></div>''" "''<div class=flex ''" "''GrId''"
          "''><img/><img/></div>''"]
    by (simp add: py_lower_def lower_char_def)
  show "arrangement (analyze_image_patterns ''<div class=Flex><img/><img/></div>'') = ''flex''"
    using arrangement_precedence [of "''<div class=Flex><img/><img/></div>''" "[]" "[]" "[]"]
    by (simp add: py_lower_def lower_char_def)
  show "arrangement (analyze_image_patterns ''<div class=flex><img/></div>'') = ''single''"
    using arrangement_precedence [of "''<div class=flex><img/></div>''" "[]" "[]" "[]"]
    by (simp add: py_lower_def lower_char_def)
  show "arrangement (analyze_image_patterns ''<img/><img/><img/><img/>'') = ''gallery''"
    using arrangement_precedence [of "''<img/><img/><img/><img/>''" "[]" "[]" "[]"]
    by (simp add: py_lower_def lower_char_def)
  show "arrangement (analyze_image_patterns ''<img/><img/><img/>'') = ''multiple''"
    using arrangement_precedence [of "''<img/><img/><img/>''" "[]" "[]" "[]"]
    by (simp add: py_lower_def lower_char_def)
qed

text \<open>
  Claim C8. A text in which \<open><img\<close> does not occur has image count 0, and its arrangement is
  neither \<open>single\<close> nor \<open>gallery\<close>: it is \<open>grid\<close> or \<open>multiple\<close>.
\<close>

theorem no_image_arrangement:
  assumes "\<not> py_in ''<img'' jsx_code"
  shows "count (analyze_image_patterns jsx_code) = 0 \<and>
         arrangement (analyze_image_patterns jsx_code) \<noteq> ''single'' \<and>
         arrangement (analyze_image_patterns jsx_code) \<noteq> ''gallery'' \<and>
         arrangement (analyze_image_patterns jsx_code) =
           (if py_in ''grid'' (py_lower jsx_code) then ''grid'' else ''multiple'')"
proof -
  from assms have "py_count ''<img'' jsx_code = 0"
    by (simp add: py_count_zero_iff)
  then show ?thesis
    by (simp add: analyze_image_patterns_def)
qed

text \<open>A text without image that mentions \<open>flex\<close>.\<close>

theorem no_image_arrangement_witness:
  "\<not> py_in ''<img'' ''<div class=flex><p>text only</p></div>'' \<and>
   count (analyze_image_patterns ''<div class=flex><p>text only</p></div>'') = 0 \<and>
   arrangement (analyze_image_patterns ''<div class=flex><p>text only</p></div>'') = ''multiple''"
proof -
  have h: "\<not> py_in ''<img'' ''<div class=flex><p>text only</p></div>''" by simp
  have g: "\<not> py_in ''grid'' (py_lower ''<div class=flex><p>text only</p></div>'')"
    by (simp add: py_lower_def lower_char_def)
  from no_image_arrangement [OF h] h g show ?thesis by simp
qed

section \<open>The text hierarchy\<close>

lemma tag_marker_unique:
  assumes "mt \<in> set tag_markers" and "mt' \<in> set tag_markers"
    and "prefix (fst mt) s" and "prefix (fst mt') s"
  shows "mt = mt'"
  using assms by (auto simp: tag_markers_def prefix_def)

lemma set_first_occurrence_order:
  "set (first_occurrence_order seen s) =
     set seen \<union> snd ` {mt \<in> set tag_markers. py_in (fst mt) s}"
proof (induction s arbitrary: seen)
  case Nil
  have e: "snd ` {mt \<in> set tag_markers. py_in (fst mt) []} = {}"
    by (auto simp: tag_markers_def)
  show ?case unfolding e by simp
next
  case (Cons c cs)
  show ?case
  proof (cases "find (\<lambda>mt. prefix (fst mt) (c # cs)) tag_markers")
    case None
    then have "\<forall>mt \<in> set tag_markers. \<not> prefix (fst mt) (c # cs)"
      by (auto simp: find_None_iff)
    then have "{mt \<in> set tag_markers. py_in (fst mt) (c # cs)} =
               {mt \<in> set tag_markers. py_in (fst mt) cs}"
      by auto
    then show ?thesis
      using None by (simp add: Cons.IH del: py_in.simps)
  next
    case (Some mt)
    then have mt: "mt \<in> set tag_markers" "prefix (fst mt) (c # cs)"
      by (auto simp: find_Some_iff)
    have u: "\<And>mt'. mt' \<in> set tag_markers \<Longrightarrow> prefix (fst mt') (c # cs) \<Longrightarrow> mt' = mt"
      using mt tag_marker_unique by blast
    have "py_in (fst mt) (c # cs)"
      using mt by simp
    with u mt(1) have split: "{mt' \<in> set tag_markers. py_in (fst mt') (c # cs)} =
          insert mt {mt' \<in> set tag_markers. py_in (fst mt') cs}"
      by (auto simp del: set_simps)
    have "set (if snd mt \<in> set seen then seen else seen @ [snd mt]) = insert (snd mt) (set seen)"
      by auto
    then have "set (first_occurrence_order seen (c # cs)) =
        insert (snd mt) (set seen) \<union> snd ` {mt' \<in> set tag_markers. py_in (fst mt') cs}"
      using Some by (simp add: Cons.IH del: set_simps)
    then show ?thesis
      unfolding split by simp
  qed
qed

text \<open>
  Claim C3, amended. The hierarchy consists of exactly those of the tags h1, h2, h3, p whose
  marker \<open><h1\<close>, \<open><h2\<close>, \<open><h3\<close>, \<open><p\<close> occurs in the text, each once, in the fixed order h1, h2,
  h3, p in which the code tests them. It holds the same tags as the list in order of first
  occurrence, but not in that order.
\<close>

theorem hierarchy_fixed_order:
  "hierarchy (analyze_text_patterns jsx_code) =
     filter (\<lambda>t. py_in (''<'' @ t) jsx_code) [''h1'', ''h2'', ''h3'', ''p''] \<and>
   distinct (hierarchy (analyze_text_patterns jsx_code)) \<and>
   subseq (hierarchy (analyze_text_patterns jsx_code)) [''h1'', ''h2'', ''h3'', ''p''] \<and>
   set (hierarchy (analyze_text_patterns jsx_code)) = set (first_occurrence_order [] jsx_code)"
proof -
  have eq: "hierarchy (analyze_text_patterns jsx_code) =
     filter (\<lambda>t. py_in (''<'' @ t) jsx_code) [''h1'', ''h2'', ''h3'', ''p'']"
    by (simp add: analyze_text_patterns_def)
  have d: "distinct (filter (\<lambda>t. py_in (''<'' @ t) jsx_code) [''h1'', ''h2'', ''h3'', ''p''])"
    by (rule distinct_filter) simp
  have s: "subseq (filter (\<lambda>t. py_in (''<'' @ t) jsx_code) [''h1'', ''h2'', ''h3'', ''p''])
     [''h1'', ''h2'', ''h3'', ''p'']"
    by (rule subseq_filter_left)
  have h: "snd ` {mt \<in> set tag_markers. py_in (fst mt) jsx_code} =
        {t \<in> set [''h1'', ''h2'', ''h3'', ''p'']. py_in (''<'' @ t) jsx_code}"
    by (auto simp: tag_markers_def image_iff)
  have st: "set (filter (\<lambda>t. py_in (''<'' @ t) jsx_code) [''h1'', ''h2'', ''h3'', ''p'']) =
     set (first_occurrence_order [] jsx_code)"
    by (simp only: set_first_occurrence_order set_filter h list.set(1) Un_empty_left)
  from eq d s st show ?thesis by simp
qed

text \<open>
  Claim C3 as stated fails: in a text whose paragraph comes before its heading, the order of
  first occurrence is p, h1, and the code answers h1, p.
\<close>

theorem hierarchy_scan_order_counterexample:
  "hierarchy (analyze_text_patterns ''<p>intro</p><h1>title</h1>'') = [''h1'', ''p''] \<and>
   first_occurrence_order [] ''<p>intro</p><h1>title</h1>'' = [''p'', ''h1''] \<and>
   hierarchy (analyze_text_patterns ''<p>intro</p><h1>title</h1>'') \<noteq>
     first_occurrence_order [] ''<p>intro</p><h1>title</h1>''"
proof -
  have "hierarchy (analyze_text_patterns ''<p>intro</p><h1>title</h1>'') = [''h1'', ''p''] \<and>
     first_occurrence_order [] ''<p>intro</p><h1>title</h1>'' = [''p'', ''h1'']"
  proof (intro conjI)
    show "hierarchy (analyze_text_patterns ''<p>intro</p><h1>title</h1>'') = [''h1'', ''p'']"
      by (simp add: analyze_text_patterns_def)
    show "first_occurrence_order [] ''<p>intro</p><h1>title</h1>'' = [''p'', ''h1'']"
      by code_simp
  qed
  then show ?thesis by simp
qed

section \<open>The document key\<close>

lemma re_sub_not_key_char:
  "re_sub_from not_key_char ''_'' 0 s = map (\<lambda>c. if key_char c then c else CHR ''_'') s"
  by (induction s) (simp_all add: not_key_char_def)

lemma collapse_underscores_run:
  "collapse_underscores (CHR ''_'' # cs) =
     CHR ''_'' # collapse_underscores (dropWhile (\<lambda>c. c = CHR ''_'') cs)"
proof (induction cs)
  case Nil
  then show ?case by simp
next
  case (Cons a cs)
  then show ?case by (cases cs) auto
qed

lemma collapse_underscores_other:
  "c \<noteq> CHR ''_'' \<Longrightarrow> collapse_underscores (c # cs) = c # collapse_underscores cs"
  by (cases cs) simp_all

lemma re_sub_skip:
  "skip \<le> length (takeWhile (\<lambda>c. c = CHR ''_'') s) \<Longrightarrow>
     re_sub_from underscores ''_'' skip s = re_sub_from underscores ''_'' 0 (drop skip s)"
proof (induction s arbitrary: skip)
  case Nil
  then show ?case by simp
next
  case (Cons c cs)
  show ?case
  proof (cases skip)
    case 0
    then show ?thesis by simp
  next
    case (Suc k)
    with Cons.prems have "c = CHR ''_''" and "k \<le> length (takeWhile (\<lambda>c. c = CHR ''_'') cs)"
      by (auto split: if_splits)
    with Suc Cons.IH [of k] show ?thesis by simp
  qed
qed

lemma re_sub_underscores:
  "re_sub_from underscores ''_'' 0 s = collapse_underscores s"
proof (induction "length s" arbitrary: s rule: less_induct)
  case less
  show ?case
  proof (cases s)
    case Nil
    then show ?thesis by simp
  next
    case (Cons c cs)
    show ?thesis
    proof (cases "c = CHR ''_''")
      case True
      have "re_sub_from underscores ''_'' 0 (c # cs) =
            CHR ''_'' # re_sub_from underscores ''_'' (length (takeWhile (\<lambda>c. c = CHR ''_'') cs)) cs"
        using True by (simp add: underscores_def)
      also have "\<dots> = CHR ''_'' # re_sub_from underscores ''_'' 0 (dropWhile (\<lambda>c. c = CHR ''_'') cs)"
        using re_sub_skip [of "length (takeWhile (\<lambda>c. c = CHR ''_'') cs)" cs]
        by (simp add: dropWhile_eq_drop)
      also have "\<dots> = CHR ''_'' # collapse_underscores (dropWhile (\<lambda>c. c = CHR ''_'') cs)"
        using less [of "dropWhile (\<lambda>c. c = CHR ''_'') cs"] Cons
        by (simp add: length_dropWhile_le le_imp_less_Suc)
      finally show ?thesis
        using True Cons by (simp add: collapse_underscores_run)
    next
      case False
      then have "re_sub_from underscores ''_'' 0 (c # cs) = c # re_sub_from underscores ''_'' 0 cs"
        by (simp add: underscores_def)
      with False less [of cs] Cons show ?thesis
        by (simp add: collapse_underscores_other)
    qed
  qed
qed

lemma py_strip_underscore: "py_strip ''_'' s = trim_underscores s"
  by (simp add: py_strip_def trim_underscores_def)

lemma create_safe_jsx_key_eq: "create_safe_jsx_key component_name = sanitize_id component_name"
  by (simp add: create_safe_jsx_key_def sanitize_id_def re_sub_def re_sub_not_key_char
      re_sub_underscores py_strip_underscore Let_def)


lemma set_collapse_underscores: "set (collapse_underscores s) \<subseteq> set s"
  by (induction s rule: collapse_underscores.induct) auto

lemma set_trim_underscores: "set (trim_underscores s) \<subseteq> set s"
proof -
  have "set (trim_underscores s) \<subseteq> set (dropWhile (\<lambda>c. c = CHR ''_'') s)"
    unfolding trim_underscores_def using set_dropWhileD by fastforce
  also have "\<dots> \<subseteq> set s"
    using set_dropWhileD by fastforce
  finally show ?thesis .
qed

lemma key_chars_sanitize_id: "list_all key_char (sanitize_id s)"
proof -
  have "set (sanitize_id s) \<subseteq> set (map (\<lambda>c. if key_char c then c else CHR ''_'') s)"
    unfolding sanitize_id_def
    using set_take_subset set_trim_underscores set_collapse_underscores
    by (meson subset_trans)
  moreover have "key_char (CHR ''_'')"
    by (simp add: key_char_def)
  ultimately show ?thesis
    by (auto simp: list_all_iff)
qed

lemma collapse_underscores_Cons: "\<exists>r. collapse_underscores (b # cs) = b # r"
proof (induction cs arbitrary: b)
  case Nil
  then show ?case by simp
next
  case (Cons c cs)
  then show ?case by (cases "b = CHR ''_'' \<and> c = CHR ''_''") auto
qed

lemma no_double_collapse: "no_double_underscore (collapse_underscores s)"
proof (induction s rule: collapse_underscores.induct)
  case (1 a b cs)
  obtain r where r: "collapse_underscores (b # cs) = b # r"
    using collapse_underscores_Cons by blast
  with 1 show ?case by auto
qed simp_all

lemma rev_dropWhile_takeWhile:
  "xs = rev (dropWhile P (rev xs)) @ rev (takeWhile P (rev xs))"
proof -
  have "rev (dropWhile P (rev xs)) @ rev (takeWhile P (rev xs)) =
        rev (takeWhile P (rev xs) @ dropWhile P (rev xs))"
    by (simp only: rev_append)
  also have "\<dots> = rev (rev xs)"
    by (simp only: takeWhile_dropWhile_id)
  also have "\<dots> = xs"
    by (simp only: rev_rev_ident)
  finally show ?thesis by (rule sym)
qed

lemma no_double_append:
  "no_double_underscore (xs @ ys) \<Longrightarrow> no_double_underscore xs \<and> no_double_underscore ys"
proof (induction xs)
  case Nil
  then show ?case by simp
next
  case (Cons a xs)
  note IH = Cons.IH and prems = Cons.prems
  show ?case
  proof (cases xs)
    case Nil
    with prems show ?thesis by (cases ys) auto
  next
    case (Cons b cs)
    with prems IH show ?thesis by auto
  qed
qed

lemma trim_underscores_split:
  "\<exists>pre post. s = pre @ trim_underscores s @ post"
proof -
  let ?P = "\<lambda>c. c = CHR ''_''"
  let ?t = "dropWhile ?P s"
  have t: "?t = trim_underscores s @ rev (takeWhile ?P (rev ?t))"
    unfolding trim_underscores_def by (rule rev_dropWhile_takeWhile)
  have "takeWhile ?P s @ trim_underscores s @ rev (takeWhile ?P (rev ?t)) =
        takeWhile ?P s @ ?t"
    by (simp only: t [symmetric])
  also have "\<dots> = s"
    by (simp only: takeWhile_dropWhile_id)
  finally have "s = takeWhile ?P s @ trim_underscores s @ rev (takeWhile ?P (rev ?t))"
    by (rule sym)
  then show ?thesis by blast
qed

lemma no_double_sanitize_id: "no_double_underscore (sanitize_id s)"
proof -
  let ?c = "collapse_underscores (map (\<lambda>c. if key_char c then c else CHR ''_'') s)"
  obtain pre post where "?c = pre @ trim_underscores ?c @ post"
    using trim_underscores_split by blast
  then have "no_double_underscore (pre @ trim_underscores ?c @ post)"
    using no_double_collapse [of "map (\<lambda>c. if key_char c then c else CHR ''_'') s"] by simp
  then have "no_double_underscore (trim_underscores ?c)"
    using no_double_append by blast
  then have "no_double_underscore (take 100 (trim_underscores ?c) @ drop 100 (trim_underscores ?c))"
    by simp
  then show ?thesis
    unfolding sanitize_id_def using no_double_append by blast
qed

lemma hd_trim_underscores:
  "trim_underscores s \<noteq> [] \<Longrightarrow> hd (trim_underscores s) \<noteq> CHR ''_''"
proof -
  let ?P = "\<lambda>c. c = CHR ''_''"
  let ?t = "dropWhile ?P s"
  assume ne: "trim_underscores s \<noteq> []"
  have t: "?t = trim_underscores s @ rev (takeWhile ?P (rev ?t))"
    unfolding trim_underscores_def by (rule rev_dropWhile_takeWhile)
  have "hd ?t = hd (trim_underscores s @ rev (takeWhile ?P (rev ?t)))"
    by (rule arg_cong [OF t])
  also have "\<dots> = hd (trim_underscores s)"
    using ne by (rule hd_append2)
  finally have h: "hd ?t = hd (trim_underscores s)" .
  from t ne have "?t \<noteq> []"
    by (metis append_is_Nil_conv)
  then have "\<not> ?P (hd ?t)"
    by (rule hd_dropWhile)
  with h show ?thesis by simp
qed

lemma hd_sanitize_id: "sanitize_id s \<noteq> [] \<Longrightarrow> hd (sanitize_id s) \<noteq> CHR ''_''"
proof -
  let ?t = "trim_underscores
    (collapse_underscores (map (\<lambda>c. if key_char c then c else CHR ''_'') s))"
  assume "sanitize_id s \<noteq> []"
  then have ne: "?t \<noteq> []"
    by (auto simp: sanitize_id_def)
  have "hd (take 100 ?t) = hd ?t"
    by (rule hd_take) simp
  with ne hd_trim_underscores [OF ne] show ?thesis
    by (simp add: sanitize_id_def)
qed

lemma collapse_underscores_id: "no_double_underscore s \<Longrightarrow> collapse_underscores s = s"
  by (induction s rule: collapse_underscores.induct) auto

lemma trim_underscores_id:
  assumes "s = [] \<or> (hd s \<noteq> CHR ''_'' \<and> last s \<noteq> CHR ''_'')"
  shows "trim_underscores s = s"
proof (cases "s = []")
  case True
  then show ?thesis by (simp add: trim_underscores_def)
next
  case False
  with assms have h: "hd s \<noteq> CHR ''_''" and l: "last s \<noteq> CHR ''_''" by auto
  from False h have 1: "dropWhile (\<lambda>c. c = CHR ''_'') s = s"
    by (cases s) auto
  from False l have 2: "dropWhile (\<lambda>c. c = CHR ''_'') (rev s) = rev s"
    by (cases "rev s") (auto simp: last_rev [symmetric] simp del: last_rev)
  show ?thesis
    by (simp add: trim_underscores_def 1 2)
qed

lemma sanitize_id_key_form: "key_form s \<Longrightarrow> sanitize_id s = s"
proof -
  assume k: "key_form s"
  then have "map (\<lambda>c. if key_char c then c else CHR ''_'') s = s"
    by (auto simp: key_form_def list_all_iff intro: map_idI)
  moreover from k have "collapse_underscores s = s"
    by (simp add: key_form_def collapse_underscores_id)
  moreover from k have "trim_underscores s = s"
    by (intro trim_underscores_id) (simp add: key_form_def)
  moreover from k have "take 100 s = s"
    by (simp add: key_form_def)
  ultimately show ?thesis
    by (simp add: sanitize_id_def)
qed

text \<open>
  Claim C7. The key is computed as the specification words it: every character outside
  \<open>[A-Za-z0-9_\-=]\<close> becomes an underscore, runs of underscores collapse to one, underscores
  at both ends are trimmed, and the result is cut to 100 characters. Hence every key is made
  of characters of the class, has no two underscores in a row, does not start with an
  underscore and is at most 100 long. For \<open>My Component!!2\<close> the key is \<open>My_Component_2\<close>: only
  characters of the class, no doubled underscore, no underscore at either end.
\<close>

theorem safe_key_pipeline:
  "create_safe_jsx_key component_name = sanitize_id component_name \<and>
   list_all key_char (create_safe_jsx_key component_name) \<and>
   no_double_underscore (create_safe_jsx_key component_name) \<and>
   length (create_safe_jsx_key component_name) \<le> 100 \<and>
   (create_safe_jsx_key component_name = [] \<or>
    hd (create_safe_jsx_key component_name) \<noteq> CHR ''_'') \<and>
   create_safe_jsx_key ''My Component!!2'' = ''My_Component_2'' \<and>
   key_form (create_safe_jsx_key ''My Component!!2'')"
proof -
  have ex: "sanitize_id ''My Component!!2'' = ''My_Component_2''"
    by (simp add: sanitize_id_def trim_underscores_def key_char_def)
  have kf: "key_form ''My_Component_2''"
    by (simp add: key_form_def key_char_def)
  have len: "length (sanitize_id component_name) \<le> 100"
    by (simp add: sanitize_id_def)
  show ?thesis
    using key_chars_sanitize_id [of component_name] no_double_sanitize_id [of component_name]
      hd_sanitize_id [of component_name] len ex kf
    by (auto simp: create_safe_jsx_key_eq)
qed

text \<open>A name with blanks, underscores and punctuation at both ends.\<close>

theorem safe_key_pipeline_witness:
  "create_safe_jsx_key ''  __hero--card=2__ !'' = ''hero--card=2'' \<and>
   key_form (create_safe_jsx_key ''  __hero--card=2__ !'')"
proof -
  have "sanitize_id ''  __hero--card=2__ !'' = ''hero--card=2''"
    by (simp add: sanitize_id_def trim_underscores_def key_char_def)
  moreover have "key_form ''hero--card=2''"
    by (simp add: key_form_def key_char_def)
  ultimately show ?thesis
    using safe_key_pipeline [of "''  __hero--card=2__ !''"] by simp
qed

text \<open>
  Claim C2, amended. The key is a function of the name that leaves a name in key form (only
  characters of the class, no doubled underscore, no underscore at either end, at most 100
  characters) unchanged; so two distinct names in key form have distinct keys.
\<close>

theorem safe_key_on_key_form:
  "(key_form a \<longrightarrow> create_safe_jsx_key a = a) \<and>
   (key_form a \<and> key_form b \<and> a \<noteq> b \<longrightarrow> create_safe_jsx_key a \<noteq> create_safe_jsx_key b)"
  by (simp add: create_safe_jsx_key_eq sanitize_id_key_form)

text \<open>Two names in key form.\<close>

theorem safe_key_on_key_form_witness:
  "key_form ''HeroCard'' \<and> key_form ''Hero_Card'' \<and> ''HeroCard'' \<noteq> ''Hero_Card'' \<and>
   create_safe_jsx_key ''HeroCard'' = ''HeroCard'' \<and>
   create_safe_jsx_key ''HeroCard'' \<noteq> create_safe_jsx_key ''Hero_Card''"
proof -
  have "key_form ''HeroCard''" and "key_form ''Hero_Card''"
    by (simp_all add: key_form_def key_char_def)
  then show ?thesis
    using safe_key_on_key_form [of "''HeroCard''" "''Hero_Card''"]
      safe_key_on_key_form [of "''Hero_Card''" "''HeroCard''"] by simp
qed

text \<open>
  Claim C2 as stated fails: a blank and an underscore give the same key, so two distinct
  names collide.
\<close>

theorem safe_key_collision_counterexample:
  "''a b'' \<noteq> ''a_b'' \<and> create_safe_jsx_key ''a b'' = create_safe_jsx_key ''a_b''"
proof -
  have "sanitize_id ''a b'' = ''a_b''" and "sanitize_id ''a_b'' = ''a_b''"
    by (simp_all add: sanitize_id_def trim_underscores_def key_char_def)
  then show ?thesis
    by (simp add: create_safe_jsx_key_eq)
qed

section \<open>The complexity score\<close>

text \<open>
  The literals of the score as doubles: \<open>0.3\<close> and \<open>0.2\<close> are not exact, \<open>0.5\<close> and \<open>1.0\<close> are.
\<close>

lemma double_literals:
  "round_double (3 / 10) = 5404319552844595 / 2 ^ 54 \<and>
   round_double (2 / 10) = 3602879701896397 / 2 ^ 54 \<and>
   round_double (5 / 10) = 1 / 2 \<and> round_double 1 = 1"
  by code_simp

text \<open>
  Rounding to a double changes a value that is not negative by at most one part in
  \<open>2 ^ 53\<close>: the exponent found by \<open>floor_log2\<close> is not above the value, and the significand is
  rounded by at most one half.
\<close>

lemma pow2_power_int: "pow2 k = power_int 2 k"
proof (cases "0 \<le> k")
  case True
  then show ?thesis by (simp only: pow2_def power_int_def if_True)
next
  case False
  have "1 / (2::rat) ^ nat (- k) = inverse 2 ^ nat (- k)"
    by (simp add: power_one_over inverse_eq_divide)
  with False show ?thesis by (simp only: pow2_def power_int_def if_False)
qed

lemma pow2_pos: "0 < pow2 k"
  by (simp add: pow2_def)

lemma pow2_add: "pow2 (i + j) = pow2 i * pow2 j"
  by (simp add: pow2_power_int power_int_add)

lemma pow2_shift: "pow2 (e - 52) * 2 ^ 52 = pow2 e"
proof -
  have "pow2 ((e - 52) + 52) = pow2 (e - 52) * pow2 52"
    by (rule pow2_add)
  moreover have "pow2 52 = 2 ^ 52"
    by (simp add: pow2_def)
  ultimately show ?thesis by simp
qed

lemma floor_log2_le:
  assumes "0 < x"
  shows "pow2 (floor_log2 x) \<le> x"
proof (cases "1 \<le> x")
  case True
  let ?n = "nat \<lfloor>x\<rfloor>"
  from True have n: "0 < ?n" by simp
  have "floorlog 2 ?n \<noteq> 0"
    unfolding floorlog_eq_zero_iff using n by auto
  then have fl: "0 < floorlog 2 ?n"
    by (rule neq0_conv [THEN iffD1])
  from n have "2 ^ (floorlog 2 ?n - 1) \<le> ?n"
    using floorlog_bounds [of ?n 2] by simp
  then have "(of_nat (2 ^ (floorlog 2 ?n - 1)) :: rat) \<le> of_nat ?n"
    by (simp only: of_nat_le_iff)
  also have "(of_nat ?n :: rat) = of_int \<lfloor>x\<rfloor>"
    using True by simp
  also have "\<dots> \<le> x"
    by (rule of_int_floor_le)
  finally have "(2::rat) ^ (floorlog 2 ?n - 1) \<le> x"
    by simp
  moreover from fl have "nat (int (floorlog 2 ?n) - 1) = floorlog 2 ?n - 1"
    by simp
  ultimately show ?thesis
    using True fl by (simp add: floor_log2_def pow2_def)
next
  case False
  with assms have x: "0 < x" "x < 1" by simp_all
  let ?y = "1 / x"
  let ?n = "nat (\<lceil>?y\<rceil> - 1)"
  from x have y: "1 < ?y" by simp
  then have c: "2 \<le> \<lceil>?y\<rceil>"
    by (simp add: le_ceiling_iff)
  then have n: "0 < ?n" by simp
  have "floorlog 2 ?n \<noteq> 0"
    unfolding floorlog_eq_zero_iff using n by auto
  then have fl: "0 < floorlog 2 ?n"
    by (rule neq0_conv [THEN iffD1])
  from n have "?n < 2 ^ floorlog 2 ?n"
    using floorlog_bounds [of ?n 2] by simp
  then have "Suc ?n \<le> 2 ^ floorlog 2 ?n" by (rule Suc_leI)
  then have le: "(of_nat (Suc ?n) :: rat) \<le> of_nat (2 ^ floorlog 2 ?n)"
    by (simp only: of_nat_le_iff)
  have eq: "(of_nat (Suc ?n) :: rat) = of_int \<lceil>?y\<rceil>"
  proof -
    from c have "int (Suc ?n) = \<lceil>?y\<rceil>" by linarith
    then have "(of_int (int (Suc ?n)) :: rat) = of_int \<lceil>?y\<rceil>" by (rule arg_cong)
    then show ?thesis by (simp only: of_int_of_nat_eq)
  qed
  have "?y \<le> of_int \<lceil>?y\<rceil>"
    by (rule le_of_int_ceiling)
  also have "\<dots> = of_nat (Suc ?n)"
    by (rule eq [symmetric])
  also have "\<dots> \<le> of_nat (2 ^ floorlog 2 ?n)"
    by (rule le)
  also have "\<dots> = 2 ^ floorlog 2 ?n"
    by simp
  finally have "?y \<le> 2 ^ floorlog 2 ?n" .
  with x have "1 / 2 ^ floorlog 2 ?n \<le> x"
    by (simp add: field_simps)
  then show ?thesis
    using False fl by (simp add: floor_log2_def pow2_def)
qed

lemma round_half_even_bounds:
  "of_int (round_half_even r) - r \<le> 1 / 2 \<and> r - of_int (round_half_even r) \<le> 1 / 2"
proof -
  define f where "f = \<lfloor>r\<rfloor>"
  define d where "d = r - of_int f"
  have lo: "of_int f \<le> r" and hi: "r < of_int f + 1"
    unfolding f_def by linarith+
  have d: "0 \<le> d" "d < 1"
    using lo hi by (simp_all add: d_def)
  have rhe: "round_half_even r =
      (if d < 1 / 2 then f else if 1 / 2 < d then f + 1 else if even f then f else f + 1)"
    by (simp only: round_half_even_def Let_def f_def d_def)
  consider "d < 1 / 2" | "1 / 2 < d" | "d = 1 / 2"
    by linarith
  then show ?thesis
  proof cases
    case 1
    then have "round_half_even r = f" by (simp only: rhe if_True)
    with 1 d show ?thesis by (simp add: d_def)
  next
    case 2
    then have "round_half_even r = f + 1" by (simp add: rhe)
    with 2 d show ?thesis by (simp add: d_def)
  next
    case 3
    then have "round_half_even r = f \<or> round_half_even r = f + 1" by (simp add: rhe)
    with 3 show ?thesis by (auto simp: d_def)
  qed
qed

lemma round_double_bounds:
  assumes "0 \<le> x"
  shows "x * (1 - 1 / 2 ^ 53) \<le> round_double x \<and> round_double x \<le> x * (1 + 1 / 2 ^ 53)"
proof (cases "x = 0")
  case True
  then show ?thesis by (simp add: round_double_def)
next
  case False
  with assms have x: "0 < x" by simp
  define u where "u = pow2 (floor_log2 x - 52)"
  define m where "m = round_half_even (x / u)"
  have u: "0 < u"
    by (simp add: u_def pow2_pos)
  have r: "round_double x = of_int m * u"
    using x by (simp add: round_double_def u_def m_def Let_def)
  have "u * 2 ^ 52 \<le> x"
    by (simp only: u_def pow2_shift floor_log2_le [OF x])
  then have small: "u / 2 \<le> x / 2 ^ 53"
    by simp
  have "of_int m - x / u \<le> 1 / 2" and "x / u - of_int m \<le> 1 / 2"
    using round_half_even_bounds [of "x / u"] by (simp_all add: m_def)
  then have "(of_int m - x / u) * u \<le> 1 / 2 * u" and "(x / u - of_int m) * u \<le> 1 / 2 * u"
    using u by (simp_all only: mult_le_cancel_right_pos)
  then have "of_int m * u - x \<le> u / 2" and "x - of_int m * u \<le> u / 2"
    using u by (simp_all add: algebra_simps)
  with small have "of_int m * u - x \<le> x / 2 ^ 53" and "x - of_int m * u \<le> x / 2 ^ 53"
    by linarith+
  then show ?thesis
    by (simp add: r algebra_simps)
qed


text \<open>How the bound passes through sums, products and further roundings.\<close>

lemma roundings_refl: "roundings 0 x x"
  by (simp add: roundings_def)

lemma roundings_nonneg: "0 \<le> x \<Longrightarrow> roundings k x y \<Longrightarrow> 0 \<le> y"
proof -
  assume x: "0 \<le> x" and r: "roundings k x y"
  have "(0::rat) \<le> (1 - 1 / 2 ^ 53) ^ k"
    by (rule zero_le_power) simp
  with x have "0 \<le> x * (1 - 1 / 2 ^ 53) ^ k"
    by (rule mult_nonneg_nonneg)
  with r show ?thesis
    by (simp add: roundings_def)
qed

lemma roundings_round:
  assumes "0 \<le> x" and "roundings k x y" and "k' = Suc k"
  shows "roundings k' x (round_double y)"
proof -
  have y: "0 \<le> y"
    using assms(1,2) by (rule roundings_nonneg)
  from round_double_bounds [OF y]
  have lo: "y * (1 - 1 / 2 ^ 53) \<le> round_double y"
    and hi: "round_double y \<le> y * (1 + 1 / 2 ^ 53)"
    by simp_all
  from assms(2) have "x * (1 - 1 / 2 ^ 53) ^ k \<le> y" and "y \<le> x * (1 + 1 / 2 ^ 53) ^ k"
    by (simp_all add: roundings_def)
  then have "x * (1 - 1 / 2 ^ 53) ^ k * (1 - 1 / 2 ^ 53) \<le> y * (1 - 1 / 2 ^ 53)"
    and "y * (1 + 1 / 2 ^ 53) \<le> x * (1 + 1 / 2 ^ 53) ^ k * (1 + 1 / 2 ^ 53)"
    by (simp_all add: mult_right_mono)
  with lo hi have "x * (1 - 1 / 2 ^ 53) ^ k * (1 - 1 / 2 ^ 53) \<le> round_double y"
    and "round_double y \<le> x * (1 + 1 / 2 ^ 53) ^ k * (1 + 1 / 2 ^ 53)"
    by linarith+
  then show ?thesis
    by (simp add: roundings_def mult.assoc assms(3))
qed

lemma roundings_mono:
  assumes "0 \<le> x" and "j \<le> k" and "roundings j x y"
  shows "roundings k x y"
proof -
  have "(1 - 1 / 2 ^ 53 :: rat) ^ k \<le> (1 - 1 / 2 ^ 53) ^ j"
    using assms(2) by (intro power_decreasing) simp_all
  then have lo: "x * (1 - 1 / 2 ^ 53) ^ k \<le> x * (1 - 1 / 2 ^ 53) ^ j"
    using assms(1) by (rule mult_left_mono)
  have "(1 + 1 / 2 ^ 53 :: rat) ^ j \<le> (1 + 1 / 2 ^ 53) ^ k"
    using assms(2) by (intro power_increasing) simp_all
  then have hi: "x * (1 + 1 / 2 ^ 53) ^ j \<le> x * (1 + 1 / 2 ^ 53) ^ k"
    using assms(1) by (rule mult_left_mono)
  from assms(3) have "x * (1 - 1 / 2 ^ 53) ^ j \<le> y" and "y \<le> x * (1 + 1 / 2 ^ 53) ^ j"
    by (simp_all add: roundings_def)
  with lo hi have "x * (1 - 1 / 2 ^ 53) ^ k \<le> y" and "y \<le> x * (1 + 1 / 2 ^ 53) ^ k"
    by linarith+
  then show ?thesis
    by (simp add: roundings_def)
qed

lemma roundings_add:
  "roundings k x1 y1 \<Longrightarrow> roundings k x2 y2 \<Longrightarrow> roundings k (x1 + x2) (y1 + y2)"
  by (simp add: roundings_def distrib_right add_mono)

lemma roundings_mult:
  assumes "0 \<le> x1" and "0 \<le> x2" and "roundings j x1 y1" and "roundings k x2 y2"
    and "i = j + k"
  shows "roundings i (x1 * x2) (y1 * y2)"
proof -
  have y1: "0 \<le> y1" and y2: "0 \<le> y2"
    using assms by (auto intro: roundings_nonneg)
  have p: "(0::rat) \<le> (1 - 1 / 2 ^ 53) ^ j" "(0::rat) \<le> (1 - 1 / 2 ^ 53) ^ k"
    by (rule zero_le_power, simp)+
  from assms(3,4) have b: "x1 * (1 - 1 / 2 ^ 53) ^ j \<le> y1" "y1 \<le> x1 * (1 + 1 / 2 ^ 53) ^ j"
    "x2 * (1 - 1 / 2 ^ 53) ^ k \<le> y2" "y2 \<le> x2 * (1 + 1 / 2 ^ 53) ^ k"
    by (simp_all add: roundings_def)
  have "(x1 * (1 - 1 / 2 ^ 53) ^ j) * (x2 * (1 - 1 / 2 ^ 53) ^ k) \<le> y1 * y2"
    using b(1) b(3) y1 assms(2) p(2) by (intro mult_mono) simp_all
  moreover have "y1 * y2 \<le> (x1 * (1 + 1 / 2 ^ 53) ^ j) * (x2 * (1 + 1 / 2 ^ 53) ^ k)"
    using b(2) b(4) y1 y2 assms by (intro mult_mono) (simp_all add: roundings_nonneg)
  ultimately show ?thesis
    by (simp add: roundings_def power_add mult_ac assms(5))
qed

text \<open>
  The score is reached from the exact sum by six roundings at most: the count, the literal
  and the product of each term, and three sums.
\<close>

lemma roundings_term:
  assumes "0 \<le> c"
  shows "roundings 3 (c * of_nat n) (fmul (float_of_nat n) (round_double c))"
proof -
  have n: "roundings 1 (of_nat n) (float_of_nat n)"
    unfolding float_of_nat_def
    by (rule roundings_round [where k = 0]) (simp_all add: roundings_refl)
  have c: "roundings 1 c (round_double c)"
    using assms by (intro roundings_round [where k = 0]) (simp_all add: roundings_refl)
  have "roundings 2 (of_nat n * c) (float_of_nat n * round_double c)"
    using assms by (intro roundings_mult [OF _ _ n c]) simp_all
  then have "roundings 3 (of_nat n * c) (round_double (float_of_nat n * round_double c))"
    using assms by (intro roundings_round [where k = 2]) simp_all
  then show ?thesis
    by (simp only: fmul_def mult.commute [of c "of_nat n"])
qed

lemma exact_score_nonneg:
  "0 \<le> 5 / 10 * (of_nat a :: rat)" "0 \<le> 1 * (of_nat b :: rat)"
  "0 \<le> 3 / 10 * (of_nat c :: rat)" "0 \<le> 2 / 10 * (of_nat d :: rat)"
  by simp_all

lemma roundings_score:
  "roundings 6 (exact_score a b c d) (score_of_counts a b c d)"
proof -
  let ?t1 = "fmul (float_of_nat a) (round_double (5 / 10))"
  let ?t2 = "fmul (float_of_nat b) (round_double 1)"
  let ?t3 = "fmul (float_of_nat c) (round_double (3 / 10))"
  let ?t4 = "fmul (float_of_nat d) (round_double (2 / 10))"
  have t1: "roundings 3 (5 / 10 * of_nat a) ?t1" by (rule roundings_term) simp
  have t2: "roundings 3 (1 * of_nat b) ?t2" by (rule roundings_term) simp
  have t3: "roundings 3 (3 / 10 * of_nat c) ?t3" by (rule roundings_term) simp
  have t4: "roundings 3 (2 / 10 * of_nat d) ?t4" by (rule roundings_term) simp
  have "roundings 3 (5 / 10 * of_nat a + 1 * of_nat b) (?t1 + ?t2)"
    using t1 t2 by (rule roundings_add)
  then have s1: "roundings 4 (5 / 10 * of_nat a + 1 * of_nat b) (fadd ?t1 ?t2)"
    unfolding fadd_def
    by (intro roundings_round [where k = 3]) simp_all
  have "roundings 4 (3 / 10 * of_nat c) ?t3"
    using t3 by (intro roundings_mono [of _ 3 4]) simp_all
  with s1 have "roundings 4 (5 / 10 * of_nat a + 1 * of_nat b + 3 / 10 * of_nat c)
      (fadd ?t1 ?t2 + ?t3)"
    by (rule roundings_add)
  then have s2: "roundings 5 (5 / 10 * of_nat a + 1 * of_nat b + 3 / 10 * of_nat c)
      (fadd (fadd ?t1 ?t2) ?t3)"
    unfolding fadd_def [of "fadd ?t1 ?t2" ?t3]
    by (intro roundings_round [where k = 4]) simp_all
  have "roundings 5 (2 / 10 * of_nat d) ?t4"
    using t4 by (intro roundings_mono [of _ 3 5]) simp_all
  with s2 have "roundings 5
      (5 / 10 * of_nat a + 1 * of_nat b + 3 / 10 * of_nat c + 2 / 10 * of_nat d)
      (fadd (fadd ?t1 ?t2) ?t3 + ?t4)"
    by (rule roundings_add)
  then have "roundings 6
      (5 / 10 * of_nat a + 1 * of_nat b + 3 / 10 * of_nat c + 2 / 10 * of_nat d)
      (fadd (fadd (fadd ?t1 ?t2) ?t3) ?t4)"
    unfolding fadd_def [of "fadd (fadd ?t1 ?t2) ?t3" ?t4]
    by (intro roundings_round [where k = 5]) simp_all
  then show ?thesis
    by (simp only: exact_score_def score_of_counts_def)
qed

lemma six_roundings:
  "(1 - 1 / 2 ^ 50 :: rat) \<le> (1 - 1 / 2 ^ 53) ^ 6" "(1 + 1 / 2 ^ 53 :: rat) ^ 6 \<le> 1 + 1 / 2 ^ 50"
  by (simp_all add: power_def)

lemma score_near_exact:
  "exact_score a b c d * (1 - 1 / 2 ^ 50) \<le> score_of_counts a b c d \<and>
   score_of_counts a b c d \<le> exact_score a b c d * (1 + 1 / 2 ^ 50)"
proof -
  have e: "0 \<le> exact_score a b c d"
    by (simp add: exact_score_def)
  from roundings_score [of a b c d]
  have "exact_score a b c d * (1 - 1 / 2 ^ 53) ^ 6 \<le> score_of_counts a b c d"
    and "score_of_counts a b c d \<le> exact_score a b c d * (1 + 1 / 2 ^ 53) ^ 6"
    by (simp_all add: roundings_def)
  moreover from e have "exact_score a b c d * (1 - 1 / 2 ^ 50) \<le>
      exact_score a b c d * (1 - 1 / 2 ^ 53) ^ 6"
    by (intro mult_left_mono six_roundings)
  moreover from e have "exact_score a b c d * (1 + 1 / 2 ^ 53) ^ 6 \<le>
      exact_score a b c d * (1 + 1 / 2 ^ 50)"
    by (intro mult_left_mono six_roundings)
  ultimately show ?thesis by linarith
qed


text \<open>
  The exact sum is a number of tenths, so below a threshold it is below by a tenth at least,
  which is more than the rounding can bridge.
\<close>

lemma exact_score_tenths:
  "exact_score a b c d = of_nat (5 * a + 10 * b + 3 * c + 2 * d) / 10"
  by (simp add: exact_score_def)

lemma score_below:
  assumes "exact_score a b c d < of_nat t" and "t \<le> 100"
  shows "score_of_counts a b c d < of_nat t"
proof -
  let ?n = "5 * a + 10 * b + 3 * c + 2 * d"
  from assms(1) have "(of_nat ?n :: rat) < of_nat (10 * t)"
    by (simp add: exact_score_tenths)
  then have "?n < 10 * t"
    by (simp only: of_nat_less_iff)
  then have "Suc ?n \<le> 10 * t" by (rule Suc_leI)
  then have "(of_nat (Suc ?n) :: rat) \<le> of_nat (10 * t)"
    by (simp only: of_nat_le_iff)
  then have e: "exact_score a b c d \<le> of_nat t - 1 / 10"
    by (simp add: exact_score_tenths)
  from assms(2) have "(of_nat t :: rat) \<le> of_nat 100"
    by (simp only: of_nat_le_iff)
  then have t: "(of_nat t :: rat) \<le> 100" by simp
  have "score_of_counts a b c d \<le> exact_score a b c d * (1 + 1 / 2 ^ 50)"
    using score_near_exact by blast
  also have "\<dots> \<le> (of_nat t - 1 / 10) * (1 + 1 / 2 ^ 50)"
    using e by (intro mult_right_mono) simp_all
  also have "\<dots> < of_nat t"
    using t by (simp add: algebra_simps)
  finally show ?thesis .
qed

lemma score_above:
  assumes "of_nat t < exact_score a b c d" and "t \<le> 100"
  shows "of_nat t \<le> score_of_counts a b c d"
proof -
  let ?n = "5 * a + 10 * b + 3 * c + 2 * d"
  from assms(1) have "(of_nat (10 * t) :: rat) < of_nat ?n"
    by (simp add: exact_score_tenths)
  then have "10 * t < ?n"
    by (simp only: of_nat_less_iff)
  then have "Suc (10 * t) \<le> ?n" by (rule Suc_leI)
  then have "(of_nat (Suc (10 * t)) :: rat) \<le> of_nat ?n"
    by (simp only: of_nat_le_iff)
  then have e: "of_nat t + 1 / 10 \<le> exact_score a b c d"
    by (simp add: exact_score_tenths)
  from assms(2) have "(of_nat t :: rat) \<le> of_nat 100"
    by (simp only: of_nat_le_iff)
  then have t: "(of_nat t :: rat) \<le> 100" by simp
  have "(of_nat t :: rat) \<le> (of_nat t + 1 / 10) * (1 - 1 / 2 ^ 50)"
    using t by (simp add: algebra_simps)
  also have "\<dots> \<le> exact_score a b c d * (1 - 1 / 2 ^ 50)"
    using e by (intro mult_right_mono) simp_all
  also have "\<dots> \<le> score_of_counts a b c d"
    using score_near_exact by blast
  finally show ?thesis .
qed

lemma score_four_containers: "score_of_counts 4 0 0 0 = 2"
  by code_simp

text \<open>
  Claim C6, amended. The score is the weighted sum 0.5 times the number of \<open><div\<close> plus 1.0
  times the number of \<open><img\<close> plus 0.3 times the number of \<open>style=\<close> plus 0.2 times the number
  of \<open>className=\<close>, computed in double arithmetic from left to right; it differs from the
  exact sum by at most one part in \<open>2 ^ 50\<close>. The level is \<open>simple\<close> when the score is below 5,
  \<open>moderate\<close> when it is below 15 and \<open>complex\<close> otherwise; this is the level of the exact sum
  unless the exact sum is 5 or 15, where the level is one of the two levels that meet at the
  threshold. A text with exactly four \<open><div\<close> and no \<open><img\<close>, \<open>style=\<close> or \<open>className=\<close> scores
  exactly 2, is \<open>simple\<close>, and its children structure is \<open>nested\<close>.
\<close>

theorem complexity_score_rounded:
  "(let exact =
          exact_score (py_count ''<div'' jsx_code) (py_count ''<img'' jsx_code)
            (py_count ''style='' jsx_code) (py_count ''className='' jsx_code);
        score = complexity_score jsx_code;
        level = complexity (generate_component_metadata jsx_code category)
    in score =
         fadd
           (fadd
              (fadd (fmul (float_of_nat (py_count ''<div'' jsx_code)) (round_double (5 / 10)))
                    (fmul (float_of_nat (py_count ''<img'' jsx_code)) (round_double 1)))
              (fmul (float_of_nat (py_count ''style='' jsx_code)) (round_double (3 / 10))))
           (fmul (float_of_nat (py_count ''className='' jsx_code)) (round_double (2 / 10))) \<and>
       exact * (1 - 1 / 2 ^ 50) \<le> score \<and> score \<le> exact * (1 + 1 / 2 ^ 50) \<and>
       level =
         (if score < 5 then ''simple'' else if score < 15 then ''moderate'' else ''complex'') \<and>
       (exact < 5 \<longrightarrow> level = ''simple'') \<and>
       (5 < exact \<and> exact < 15 \<longrightarrow> level = ''moderate'') \<and>
       (15 < exact \<longrightarrow> level = ''complex'') \<and>
       (exact = 5 \<longrightarrow> level = ''simple'' \<or> level = ''moderate'') \<and>
       (exact = 15 \<longrightarrow> level = ''moderate'' \<or> level = ''complex'') \<and>
       (py_count ''<div'' jsx_code = 4 \<and> \<not> py_in ''<img'' jsx_code \<and>
        \<not> py_in ''style='' jsx_code \<and> \<not> py_in ''className='' jsx_code \<longrightarrow>
          score = 2 \<and> level = ''simple'' \<and>
          children_structure (analyze_jsx_structure jsx_code) = ''nested''))"
proof -
  let ?a = "py_count ''<div'' jsx_code" and ?b = "py_count ''<img'' jsx_code"
    and ?c = "py_count ''style='' jsx_code" and ?d = "py_count ''className='' jsx_code"
  let ?exact = "exact_score ?a ?b ?c ?d"
  let ?score = "complexity_score jsx_code"
  let ?level = "complexity (generate_component_metadata jsx_code category)"
  have sc: "?score = score_of_counts ?a ?b ?c ?d"
    by (simp only: complexity_score_def)
  have 1: "?score =
         fadd
           (fadd
              (fadd (fmul (float_of_nat ?a) (round_double (5 / 10)))
                    (fmul (float_of_nat ?b) (round_double 1)))
              (fmul (float_of_nat ?c) (round_double (3 / 10))))
           (fmul (float_of_nat ?d) (round_double (2 / 10)))"
    by (simp only: complexity_score_def score_of_counts_def)
  have 2: "?exact * (1 - 1 / 2 ^ 50) \<le> ?score \<and> ?score \<le> ?exact * (1 + 1 / 2 ^ 50)"
    unfolding sc by (rule score_near_exact)
  have 3: "?level =
      (if ?score < 5 then ''simple'' else if ?score < 15 then ''moderate'' else ''complex'')"
    by (simp add: generate_component_metadata_def)
  have lt5: "?score < 5" if "?exact < 5"
    using score_below [of ?a ?b ?c ?d 5] that by (simp add: sc)
  have lt15: "?score < 15" if "?exact < 15"
    using score_below [of ?a ?b ?c ?d 15] that by (simp add: sc)
  have ge5: "5 \<le> ?score" if "5 < ?exact"
    using score_above [of 5 ?a ?b ?c ?d] that by (simp add: sc)
  have ge15: "15 \<le> ?score" if "15 < ?exact"
    using score_above [of 15 ?a ?b ?c ?d] that by (simp add: sc)
  have 4: "?exact < 5 \<longrightarrow> ?level = ''simple''"
    using lt5 by (simp add: 3)
  have 5: "5 < ?exact \<and> ?exact < 15 \<longrightarrow> ?level = ''moderate''"
    using ge5 lt15 by (auto simp: 3)
  have 6: "15 < ?exact \<longrightarrow> ?level = ''complex''"
    using ge15 by (auto simp: 3)
  have 7: "?exact = 5 \<longrightarrow> ?level = ''simple'' \<or> ?level = ''moderate''"
  proof
    assume "?exact = 5"
    then have "?exact < 15" by simp
    then have "?score < 15" by (rule lt15)
    then show "?level = ''simple'' \<or> ?level = ''moderate''"
      by (simp add: 3)
  qed
  have 8: "?exact = 15 \<longrightarrow> ?level = ''moderate'' \<or> ?level = ''complex''"
  proof
    assume "?exact = 15"
    then have "5 < ?exact" by simp
    then have "5 \<le> ?score" by (rule ge5)
    then show "?level = ''moderate'' \<or> ?level = ''complex''"
      by (simp add: 3)
  qed
  have 9: "?a = 4 \<and> \<not> py_in ''<img'' jsx_code \<and> \<not> py_in ''style='' jsx_code \<and>
      \<not> py_in ''className='' jsx_code \<longrightarrow>
        ?score = 2 \<and> ?level = ''simple'' \<and>
        children_structure (analyze_jsx_structure jsx_code) = ''nested''"
  proof (intro impI)
    assume a: "?a = 4 \<and> \<not> py_in ''<img'' jsx_code \<and> \<not> py_in ''style='' jsx_code \<and>
      \<not> py_in ''className='' jsx_code"
    then have z: "?b = 0" "?c = 0" "?d = 0"
      by (simp_all add: py_count_zero_iff)
    from a z have "?score = score_of_counts 4 0 0 0"
      by (simp only: complexity_score_def)
    then have two: "?score = 2"
      by (simp only: score_four_containers)
    then have "?level = ''simple''"
      by (simp add: 3)
    moreover from a have "children_structure (analyze_jsx_structure jsx_code) = ''nested''"
      by (simp add: analyze_jsx_structure_def)
    ultimately show "?score = 2 \<and> ?level = ''simple'' \<and>
        children_structure (analyze_jsx_structure jsx_code) = ''nested''"
      using two by blast
  qed
  from 1 2 3 4 5 6 7 8 9 show ?thesis
    unfolding Let_def by blast
qed

text \<open>Four nested containers around a letter.\<close>

theorem complexity_score_rounded_witness:
  "py_count ''<div'' ''<div><div><div><div>x</div></div></div></div>'' = 4 \<and>
   exact_score 4 0 0 0 < 5 \<and>
   complexity_score ''<div><div><div><div>x</div></div></div></div>'' = 2 \<and>
   complexity (generate_component_metadata ''<div><div><div><div>x</div></div></div></div>''
     ''mixed'') = ''simple'' \<and>
   children_structure (analyze_jsx_structure ''<div><div><div><div>x</div></div></div></div>'') =
     ''nested''"
proof -
  have "py_count ''<div'' ''<div><div><div><div>x</div></div></div></div>'' = 4 \<and>
    \<not> py_in ''<img'' ''<div><div><div><div>x</div></div></div></div>'' \<and>
    \<not> py_in ''style='' ''<div><div><div><div>x</div></div></div></div>'' \<and>
    \<not> py_in ''className='' ''<div><div><div><div>x</div></div></div></div>''"
    by simp
  moreover have "exact_score 4 0 0 0 < 5"
    by (simp add: exact_score_def)
  ultimately show ?thesis
    using complexity_score_rounded
      [of "''<div><div><div><div>x</div></div></div></div>''" "''mixed''", unfolded Let_def]
    by blast
qed

text \<open>
  Claim C6 as stated fails when the formula is read in exact arithmetic: a text with one
  \<open><div\<close>, one \<open><img\<close>, nine \<open>style=\<close> and four \<open>className=\<close> has the exact sum 5, which is
  not below 5, and the code computes a score just below 5 and the level \<open>simple\<close>.
\<close>

lemma score_rounding_example: "score_of_counts 1 1 9 4 = 5 - 1 / 2 ^ 50"
  by code_simp

lemma threshold_text_counts:
  "py_count ''<div'' threshold_text = 1"
  "py_count ''<img'' threshold_text = 1"
  "py_count ''style='' threshold_text = 9"
  "py_count ''className='' threshold_text = 4"
  by (simp_all add: threshold_text_def)

theorem complexity_threshold_counterexample:
  "exact_score (py_count ''<div'' threshold_text) (py_count ''<img'' threshold_text)
     (py_count ''style='' threshold_text) (py_count ''className='' threshold_text) = 5 \<and>
   \<not> exact_score (py_count ''<div'' threshold_text) (py_count ''<img'' threshold_text)
     (py_count ''style='' threshold_text) (py_count ''className='' threshold_text) < 5 \<and>
   complexity_score threshold_text = 5 - 1 / 2 ^ 50 \<and>
   complexity_score threshold_text \<noteq> 5 \<and>
   complexity (generate_component_metadata threshold_text ''mixed'') = ''simple'' \<and>
   complexity (generate_component_metadata threshold_text ''mixed'') \<noteq> ''moderate''"
proof -
  have s: "complexity_score threshold_text = 5 - 1 / 2 ^ 50"
    by (simp only: complexity_score_def threshold_text_counts score_rounding_example)
  have s': "complexity_score threshold_text \<noteq> 5"
    by (simp only: s) simp
  have e: "exact_score 1 1 9 4 = 5"
    by (simp add: exact_score_def)
  have l: "complexity (generate_component_metadata threshold_text ''mixed'') = ''simple''"
    by (simp add: generate_component_metadata_def s)
  then have n: "complexity (generate_component_metadata threshold_text ''mixed'') \<noteq> ''moderate''"
    by simp
  have x: "exact_score (py_count ''<div'' threshold_text) (py_count ''<img'' threshold_text)
     (py_count ''style='' threshold_text) (py_count ''className='' threshold_text) = 5"
    by (simp only: threshold_text_counts e)
  then have x': "\<not> exact_score (py_count ''<div'' threshold_text) (py_count ''<img'' threshold_text)
     (py_count ''style='' threshold_text) (py_count ''className='' threshold_text) < 5"
    by simp
  from x x' s s' l n show ?thesis
    by blast
qed

section \<open>Search with a failing embedding provider\<close>

lemma create_jsx_embedding_failure:
  "embeddings_create env text_in = Inl e \<Longrightarrow>
     create_jsx_embedding env text_in = ([EmbeddingFailed e], replicate 1536 0)"
  by (simp add: create_jsx_embedding_def)

text \<open>
  Claim C1, amended. When the embedding provider raises during a search, nothing reaches the
  caller and the search is not given up: the failure is caught and printed inside
  \<open>_create_jsx_embedding\<close>, which answers the zero vector of 1536 components, and the search
  goes on with that vector. The list returned is the one that a provider answering the zero
  vector gives: the slice \<open>[:top_k]\<close> of the entries built from the hits of the index for
  that vector, or the empty list when the index search or the reading of a hit raises.
\<close>

theorem search_with_failing_provider:
  assumes "embeddings_create env query_text = Inl e"
  shows "snd (search_jsx_components env query_text category image_count complexity_in top_k) =
           (case index_search env
                   (make_search_params (replicate 1536 0) category image_count complexity_in top_k)
            of Inl err \<Rightarrow> []
             | Inr results \<Rightarrow>
                 (case collect_components results of
                    Inl err \<Rightarrow> []
                  | Inr jsx_components \<Rightarrow> py_slice_to top_k jsx_components)) \<and>
         snd (search_jsx_components env query_text category image_count complexity_in top_k) =
           snd (search_jsx_components (env\<lparr>embeddings_create := \<lambda>t. Inr (replicate 1536 0)\<rparr>)
                  query_text category image_count complexity_in top_k) \<and>
         EmbeddingFailed e \<in>
           set (fst (search_jsx_components env query_text category image_count complexity_in top_k))"
  using assms
  by (simp add: search_jsx_components_def create_jsx_embedding_def
      split: sum.splits)

text \<open>The sample environment: the provider is down and the index answers one hit.\<close>

lemma sample_search:
  "search_jsx_components sample_services ''magazine layout'' None None None 5 =
     ([EmbeddingFailed (Exception ''embedding service unavailable'')],
      [[(''id'', StrV ''HeroCard''), (''component_name'', StrV ''HeroCard''),
        (''category'', StrV ''mixed''), (''layout_method'', StrV ''block''),
        (''image_count'', IntV 0), (''image_arrangement'', StrV ''multiple''),
        (''complexity'', StrV ''simple''), (''jsx_code'', StrV ''<div/>''),
        (''keywords'', StrV ''mixed''), (''score'', NumV 1)]])"
  by (simp add: search_jsx_components_def create_jsx_embedding_def sample_services_def
      provider_down_def one_hit_def sample_hit_def component_data_def component_keys_def
      py_slice_to_def)

theorem search_with_failing_provider_witness:
  "embeddings_create sample_services ''magazine layout'' =
     Inl (Exception ''embedding service unavailable'') \<and>
   length (snd (search_jsx_components sample_services ''magazine layout'' None None None 5)) = 1 \<and>
   EmbeddingFailed (Exception ''embedding service unavailable'') \<in>
     set (fst (search_jsx_components sample_services ''magazine layout'' None None None 5))"
proof -
  have h: "embeddings_create sample_services ''magazine layout'' =
     Inl (Exception ''embedding service unavailable'')"
    by (simp add: sample_services_def provider_down_def)
  have "length (snd (search_jsx_components sample_services ''magazine layout'' None None None 5)) = 1"
    by (simp add: sample_search)
  with h search_with_failing_provider [OF h, of None None None 5] show ?thesis
    by blast
qed

text \<open>
  Claim C1 as stated fails: with the provider down, the search returns the hit of the index,
  not the empty list.
\<close>

theorem search_not_empty_counterexample:
  "embeddings_create sample_services ''magazine layout'' =
     Inl (Exception ''embedding service unavailable'') \<and>
   snd (search_jsx_components sample_services ''magazine layout'' None None None 5) \<noteq> []"
  by (simp add: sample_search) (simp add: sample_services_def provider_down_def)

section \<open>Failures during batch ingestion\<close>







































end
